theory Spec2Isabelle
  imports Complex_Main "HOL-Library.Multiset"
begin

section \<open>Numbers\<close>

text \<open>
  The TypeScript sources compute on JavaScript numbers. Distances, fares, scores and
  coordinates are modelled as real numbers, counts as natural numbers and minute values
  (results of \<^verbatim>\<open>Math.ceil\<close>) as integers. \<^verbatim>\<open>Infinity\<close> and \<^verbatim>\<open>null\<close>
  are modelled by \<open>None\<close> where the code can produce them.
\<close>

section \<open>Pricing engine (algorithms/pricing.ts)\<close>

record PricingParams =
  baseDistance :: real
  actualDistance :: real
  passengers :: nat
  surgeFactor :: real
  timeOfDay :: int
  totalPassengersInRide :: "nat option"

definition BASE_FARE :: real where
  "BASE_FARE = 5.0"

definition RATE_PER_KM :: real where
  "RATE_PER_KM = 2.5"

definition MIN_FARE :: real where
  "MIN_FARE = 8.0"

definition getTimeMultiplier :: "int \<Rightarrow> real" where
  "getTimeMultiplier hour =
     (if hour \<ge> 7 \<and> hour < 9 then 1.5
      else if hour \<ge> 17 \<and> hour < 19 then 1.5
      else if hour \<ge> 23 \<or> hour < 5 then 1.3
      else 1.0)"

definition getPoolingDiscount :: "nat \<Rightarrow> real" where
  "getPoolingDiscount n =
     (if n = 1 then 0
      else if n = 2 then 0.20
      else if n = 3 then 0.30
      else if n = 4 then 0.40
      else 0.40)"

text \<open>\<^verbatim>\<open>a || b\<close> on an optional count: \<^verbatim>\<open>undefined\<close> and \<open>0\<close> are falsy.\<close>

definition or_else :: "nat option \<Rightarrow> nat \<Rightarrow> nat" where
  "or_else a b = (case a of None \<Rightarrow> b | Some t \<Rightarrow> if t = 0 then b else t)"

text \<open>\<^verbatim>\<open>Math.round(x * 100) / 100\<close>; \<^verbatim>\<open>Math.round\<close> rounds halves upwards, as \<^const>\<open>round\<close> does.\<close>

definition round2 :: "real \<Rightarrow> real" where
  "round2 x = real_of_int (round (x * 100)) / 100"

definition calculateFare :: "PricingParams \<Rightarrow> real" where
  "calculateFare params =
     (let baseFarePerPassenger = BASE_FARE;
          distanceFarePerPassenger = actualDistance params * RATE_PER_KM;
          timeMultiplier = getTimeMultiplier (timeOfDay params);
          poolingDiscount =
            getPoolingDiscount (or_else (totalPassengersInRide params) (passengers params));
          farePerPassenger0 =
            (baseFarePerPassenger + distanceFarePerPassenger) * surgeFactor params * timeMultiplier;
          farePerPassenger = farePerPassenger0 * (1 - poolingDiscount);
          totalFare = farePerPassenger * real (passengers params)
      in max MIN_FARE (round2 totalFare))"

definition calculateSurgeFactor :: "real \<Rightarrow> real \<Rightarrow> real" where
  "calculateSurgeFactor activeRequests availableCabs =
     (if availableCabs = 0 then 3.0
      else let demandRatio = activeRequests / availableCabs;
               surge = 1 + (min demandRatio 2) ^ 2
           in min 3.0 (max 1.0 surge))"

definition calculateSavingsFare :: "real \<Rightarrow> real \<Rightarrow> real" where
  "calculateSavingsFare soloFare pooledFare = round2 (soloFare - pooledFare)"

section \<open>Domain types (types/index.ts)\<close>

record Location =
  latitude :: real
  longitude :: real
  address :: "string option"

datatype LuggageSize = SMALL | MEDIUM | LARGE

text \<open>The numeric values of the enum, which the luggage sums add up.\<close>

fun luggageUnits :: "LuggageSize \<Rightarrow> nat" where
  "luggageUnits SMALL = 1"
| "luggageUnits MEDIUM = 2"
| "luggageUnits LARGE = 3"

datatype RideStatus = PENDING | MATCHED | CONFIRMED | IN_PROGRESS | COMPLETED | CANCELLED

record RideRequest =
  req_id :: string
  req_userId :: string
  req_pickup :: Location
  req_dropoff :: Location
  req_requestedAt :: int
  req_passengers :: nat
  req_luggage :: "LuggageSize list"
  req_maxDetourMinutes :: int
  req_status :: RideStatus
  req_version :: int

record PassengerInfo =
  leg_requestId :: string
  leg_userId :: string
  leg_pickup :: Location
  leg_dropoff :: Location
  leg_passengers :: nat
  leg_luggage :: "LuggageSize list"
  leg_pickupOrder :: int
  leg_dropoffOrder :: int
  leg_fare :: real
  leg_detourMinutes :: int

text \<open>
  The ride object as \<^verbatim>\<open>createRide\<close> builds it and \<^verbatim>\<open>confirmBooking\<close> reads it:
  \<^verbatim>\<open>basePrice\<close> and \<^verbatim>\<open>surgeFactor\<close> may be absent.
\<close>

record Ride =
  ride_passengers :: "PassengerInfo list"
  ride_route :: "Location list"
  ride_totalDistance :: real
  ride_estimatedDuration :: int
  ride_basePrice :: "real option"
  ride_surgeFactor :: "real option"

record MatchResult =
  score :: real
  ride :: Ride
  savings :: real
  detourTime :: int

section \<open>Geometry (algorithms/distance.ts)\<close>

definition toRad :: "real \<Rightarrow> real" where
  "toRad degrees = degrees * (pi / 180)"

text \<open>\<^verbatim>\<open>Math.atan2(y, x)\<close> on real numbers.\<close>

definition atan2 :: "real \<Rightarrow> real \<Rightarrow> real" where
  "atan2 y x =
     (if 0 < x then arctan (y / x)
      else if x < 0 then (if 0 \<le> y then arctan (y / x) + pi else arctan (y / x) - pi)
      else if 0 < y then pi / 2
      else if y < 0 then - (pi / 2)
      else 0)"

definition calculateDistance :: "Location \<Rightarrow> Location \<Rightarrow> real" where
  "calculateDistance point1 point2 =
     (let R = 6371;
          dLat = toRad (latitude point2 - latitude point1);
          dLon = toRad (longitude point2 - longitude point1);
          a = sin (dLat / 2) * sin (dLat / 2) +
              cos (toRad (latitude point1)) * cos (toRad (latitude point2)) *
              sin (dLon / 2) * sin (dLon / 2);
          c = 2 * atan2 (sqrt a) (sqrt (1 - a))
      in R * c)"

fun calculateRouteDistance :: "Location list \<Rightarrow> real" where
  "calculateRouteDistance [] = 0"
| "calculateRouteDistance [p] = 0"
| "calculateRouteDistance (p # q # rest) = calculateDistance p q + calculateRouteDistance (q # rest)"

definition estimateTravelTime :: "real \<Rightarrow> int" where
  "estimateTravelTime distanceKm = (let avgSpeedKmh = 40 in \<lceil>(distanceKm / avgSpeedKmh) * 60\<rceil>)"

section \<open>Route optimizer (algorithms/routing.ts)\<close>

datatype WaypointType = Pickup | Dropoff

record Waypoint =
  wp_type :: WaypointType
  wp_location :: Location
  wp_requestId :: string
  wp_passengers :: nat

record RouteResult =
  waypoints :: "Waypoint list"
  totalDistance :: real
  estimatedDuration :: int

text \<open>
  \<open>NullRoute\<close> stands for the object \<^verbatim>\<open>{waypoints: null, totalDistance: Infinity,
  estimatedDuration: Infinity}\<close> that \<^verbatim>\<open>optimizeRouteDynamic\<close> returns when no
  permutation was accepted; \<open>TypeError\<close> is a thrown exception (a property read on
  \<^verbatim>\<open>undefined\<close> or \<^verbatim>\<open>null\<close>).
\<close>

datatype failure = NullRoute | TypeError

definition pickupWaypoint :: "RideRequest \<Rightarrow> Waypoint" where
  "pickupWaypoint req =
     \<lparr>wp_type = Pickup, wp_location = req_pickup req, wp_requestId = req_id req,
      wp_passengers = req_passengers req\<rparr>"

definition dropoffWaypoint :: "RideRequest \<Rightarrow> Waypoint" where
  "dropoffWaypoint req =
     \<lparr>wp_type = Dropoff, wp_location = req_dropoff req, wp_requestId = req_id req,
      wp_passengers = req_passengers req\<rparr>"

definition createSimpleRoute :: "RideRequest \<Rightarrow> RouteResult" where
  "createSimpleRoute request =
     (let wps = [pickupWaypoint request, dropoffWaypoint request];
          distance = calculateDistance (req_pickup request) (req_dropoff request)
      in \<lparr>waypoints = wps, totalDistance = distance,
          estimatedDuration = estimateTravelTime distance\<rparr>)"

text \<open>\<^verbatim>\<open>isValidRoute\<close>: the set \<open>picked\<close> grows along the route.\<close>

fun isValidRouteFrom :: "string set \<Rightarrow> Waypoint list \<Rightarrow> bool" where
  "isValidRouteFrom picked [] = True"
| "isValidRouteFrom picked (wp # rest) =
     (if wp_type wp = Pickup then isValidRouteFrom (insert (wp_requestId wp) picked) rest
      else if wp_requestId wp \<notin> picked then False
      else isValidRouteFrom picked rest)"

definition isValidRoute :: "Waypoint list \<Rightarrow> bool" where
  "isValidRoute route = isValidRouteFrom {} route"

text \<open>\<^verbatim>\<open>[arr[i], arr[j]] = [arr[j], arr[i]]\<close>\<close>

definition swap :: "'a list \<Rightarrow> nat \<Rightarrow> nat \<Rightarrow> 'a list" where
  "swap arr i j = (arr[i := arr ! j])[j := arr ! i]"

text \<open>
  \<^verbatim>\<open>permute\<close> swaps in place, recurses and swaps back, so every call returns with
  \<open>arr\<close> as it received it; the model passes the swapped array down instead. The
  accepted routes are appended to \<open>routes\<close> in the order of the traversal.
\<close>

function permute :: "Waypoint list \<Rightarrow> nat \<Rightarrow> Waypoint list list" where
  "permute arr start =
     (if int start = int (length arr) - 1 then (if isValidRoute arr then [arr] else [])
      else concat (map (\<lambda>i. permute (swap arr start i) (Suc start)) [start..<length arr]))"
  by pat_completeness auto
termination
  by (relation "measure (\<lambda>(arr, start). length arr - start)") (auto simp: swap_def)

declare permute.simps [simp del]

definition generateValidRoutes :: "Waypoint list \<Rightarrow> RideRequest list \<Rightarrow> Waypoint list list" where
  "generateValidRoutes wps requests = permute wps 0"

text \<open>
  The search for the shortest route: \<open>None\<close> is the initial state
  \<^verbatim>\<open>bestRoute = null, bestDistance = Infinity\<close>, below which every distance lies.
\<close>

fun pickBest :: "(Waypoint list \<times> real) option \<Rightarrow> Waypoint list list \<Rightarrow> (Waypoint list \<times> real) option" where
  "pickBest best [] = best"
| "pickBest best (route # rest) =
     (let distance = calculateRouteDistance (map wp_location route)
      in pickBest (case best of
                     None \<Rightarrow> Some (route, distance)
                   | Some (bestRoute, bestDistance) \<Rightarrow>
                       if distance < bestDistance then Some (route, distance) else best) rest)"

definition allWaypoints :: "RideRequest list \<Rightarrow> Waypoint list" where
  "allWaypoints requests = concat (map (\<lambda>req. [pickupWaypoint req, dropoffWaypoint req]) requests)"

definition optimizeRouteDynamic :: "RideRequest list \<Rightarrow> failure + RouteResult" where
  "optimizeRouteDynamic requests =
     (let wps = allWaypoints requests;
          validRoutes = generateValidRoutes wps requests
      in case pickBest None validRoutes of
           None \<Rightarrow> Inl NullRoute
         | Some (bestRoute, bestDistance) \<Rightarrow>
             Inr \<lparr>waypoints = bestRoute, totalDistance = bestDistance,
                  estimatedDuration = estimateTravelTime bestDistance\<rparr>)"

subsection \<open>The greedy fallback\<close>

text \<open>\<open>d < nearestDist\<close>, where \<open>None\<close> is \<^verbatim>\<open>Infinity\<close>.\<close>

definition lessDist :: "real \<Rightarrow> real option \<Rightarrow> bool" where
  "lessDist d nearest = (case nearest of None \<Rightarrow> True | Some n \<Rightarrow> d < n)"

text \<open>The state of one selection round: \<open>(nearestIdx, nearestDist, isPickup)\<close>.\<close>

type_synonym nearest = "int \<times> real option \<times> bool"

fun pickupScan :: "Location \<Rightarrow> Waypoint list \<Rightarrow> nat \<Rightarrow> nearest \<Rightarrow> nearest" where
  "pickupScan cur [] i st = st"
| "pickupScan cur (wp # rest) i (nearestIdx, nearestDist, isPickup) =
     (let dist = calculateDistance cur (wp_location wp)
      in pickupScan cur rest (Suc i)
           (if lessDist dist nearestDist then (int i, Some dist, True)
            else (nearestIdx, nearestDist, isPickup)))"

fun dropoffScan :: "Location \<Rightarrow> string list \<Rightarrow> RideRequest list \<Rightarrow> nearest \<Rightarrow> nearest" where
  "dropoffScan cur pickedUp [] st = st"
| "dropoffScan cur pickedUp (req # rest) (nearestIdx, nearestDist, isPickup) =
     (if req_id req \<in> set pickedUp then
        (let dist = calculateDistance cur (req_dropoff req)
         in dropoffScan cur pickedUp rest
              (if lessDist dist nearestDist then (- 1, Some dist, False)
               else (nearestIdx, nearestDist, isPickup)))
      else dropoffScan cur pickedUp rest (nearestIdx, nearestDist, isPickup))"

definition chooseNext :: "Location \<Rightarrow> RideRequest list \<Rightarrow> Waypoint list \<Rightarrow> string list \<Rightarrow> nearest" where
  "chooseNext cur requests wps pickedUp =
     dropoffScan cur pickedUp requests (pickupScan cur wps 0 (- 1, None, False))"

text \<open>
  The \<^verbatim>\<open>Set\<close> of picked-up request ids, as the list of its members in insertion
  order; \<^verbatim>\<open>splice(i, 1)\<close> removes the element at index \<open>i\<close>.
\<close>

definition setAdd :: "string \<Rightarrow> string list \<Rightarrow> string list" where
  "setAdd x xs = (if x \<in> set xs then xs else xs @ [x])"

definition setDelete :: "string \<Rightarrow> string list \<Rightarrow> string list" where
  "setDelete x xs = removeAll x xs"

definition splice1 :: "nat \<Rightarrow> 'a list \<Rightarrow> 'a list" where
  "splice1 i xs = take i xs @ drop (Suc i) xs"

function greedyLoop ::
  "RideRequest list \<Rightarrow> Waypoint list \<Rightarrow> string list \<Rightarrow> Location \<Rightarrow> Waypoint list
     \<Rightarrow> failure + Waypoint list" where
  "greedyLoop requests wps pickedUp cur route =
     (if \<not> (length wps > 0 \<or> length pickedUp > 0) then Inr route
      else
        let c = chooseNext cur requests wps pickedUp;
            nearestIdx = fst c;
            isPickup = snd (snd c)
        in if isPickup \<and> nearestIdx \<ge> 0 then
             (if nat nearestIdx < length wps then
                (let wp = wps ! nat nearestIdx
                 in greedyLoop requests (splice1 (nat nearestIdx) wps)
                      (setAdd (wp_requestId wp) pickedUp) (wp_location wp) (route @ [wp]))
              else Inl TypeError)
           else
             (case find (\<lambda>r. req_id r \<in> set pickedUp) requests of
                None \<Rightarrow> Inl TypeError
              | Some req \<Rightarrow>
                  greedyLoop requests wps (setDelete (req_id req) pickedUp) (req_dropoff req)
                    (route @ [dropoffWaypoint req])))"
  by pat_completeness auto
termination
proof (relation "measure (\<lambda>(requests, wps, pickedUp, cur, route). 2 * length wps + length pickedUp)",
    goal_cases)
  case 1
  show ?case by simp
next
  case (2 requests wps pickedUp cur route c nearestIdx isPickup wp)
  then show ?case
    by (auto simp: splice1_def setAdd_def)
next
  case (3 requests wps pickedUp cur route c nearestIdx isPickup req)
  from 3 have "req_id req \<in> set pickedUp"
    by (auto simp: find_Some_iff)
  then have "length (removeAll (req_id req) pickedUp) < length pickedUp"
    by (rule length_removeAll_less)
  then show ?case
    by (simp add: setDelete_def)
qed

declare greedyLoop.simps [simp del]

definition optimizeRouteGreedy :: "RideRequest list \<Rightarrow> failure + RouteResult" where
  "optimizeRouteGreedy requests =
     (let wps = map pickupWaypoint requests
      in case wps of
           [] \<Rightarrow> Inl TypeError
         | w # _ \<Rightarrow>
             (case greedyLoop requests wps [] (wp_location w) [] of
                Inl e \<Rightarrow> Inl e
              | Inr route \<Rightarrow>
                  (let totalKm = calculateRouteDistance (map wp_location route)
                   in Inr \<lparr>waypoints = route, totalDistance = totalKm,
                           estimatedDuration = estimateTravelTime totalKm\<rparr>)))"

definition optimizeRoute :: "RideRequest list \<Rightarrow> failure + RouteResult" where
  "optimizeRoute requests =
     (if length requests = 1 then Inr (createSimpleRoute (requests ! 0))
      else if length requests \<le> 4 then optimizeRouteDynamic requests
      else optimizeRouteGreedy requests)"

section \<open>Matching engine (algorithms/matching.ts)\<close>

text \<open>
  The three limits are read from the environment when the engine is constructed;
  \<open>defaultConfig\<close> holds the values used when the variables are unset.
\<close>

record EngineConfig =
  MAX_PASSENGERS :: nat
  MAX_LUGGAGE :: nat
  MAX_DETOUR_PCT :: nat

definition defaultConfig :: EngineConfig where
  "defaultConfig = \<lparr>MAX_PASSENGERS = 4, MAX_LUGGAGE = 6, MAX_DETOUR_PCT = 20\<rparr>"

definition SEARCH_RADIUS_KM :: real where
  "SEARCH_RADIUS_KM = 5"

definition filterNearbyRequests :: "RideRequest \<Rightarrow> RideRequest list \<Rightarrow> RideRequest list" where
  "filterNearbyRequests request requests =
     filter (\<lambda>r. if req_id r = req_id request then False
                 else calculateDistance (req_pickup request) (req_pickup r) \<le> SEARCH_RADIUS_KM)
       requests"

definition totalPassengersOf :: "RideRequest list \<Rightarrow> nat" where
  "totalPassengersOf grp = foldl (\<lambda>sum r. sum + req_passengers r) 0 grp"

definition totalLuggageOf :: "RideRequest list \<Rightarrow> nat" where
  "totalLuggageOf grp =
     foldl (\<lambda>sum r. sum + foldl (\<lambda>lsum l. lsum + luggageUnits l) 0 (req_luggage r)) 0 grp"

definition checkConstraints :: "EngineConfig \<Rightarrow> RideRequest list \<Rightarrow> bool" where
  "checkConstraints cfg grp =
     (totalPassengersOf grp \<le> MAX_PASSENGERS cfg \<and> totalLuggageOf grp \<le> MAX_LUGGAGE cfg)"

definition canAddToGroup :: "EngineConfig \<Rightarrow> RideRequest \<Rightarrow> RideRequest list \<Rightarrow> bool" where
  "canAddToGroup cfg request grp =
     (totalPassengersOf grp + req_passengers request \<le> MAX_PASSENGERS cfg)"

definition createRequestGroups :: "EngineConfig \<Rightarrow> RideRequest list \<Rightarrow> RideRequest list list" where
  "createRequestGroups cfg requests =
     (let n = length requests
      in map (\<lambda>req. [req]) requests
         @ [[requests ! i, requests ! j].
              i \<leftarrow> [0..<n], j \<leftarrow> [i + 1..<n],
              checkConstraints cfg [requests ! i, requests ! j]]
         @ [[requests ! i, requests ! j, requests ! k].
              i \<leftarrow> [0..<n], j \<leftarrow> [i + 1..<n], k \<leftarrow> [j + 1..<n],
              checkConstraints cfg [requests ! i, requests ! j, requests ! k]])"

text \<open>\<^verbatim>\<open>Array.prototype.findIndex\<close>: the first index that satisfies \<open>P\<close>, or \<open>-1\<close>.\<close>

fun findIndex :: "('a \<Rightarrow> bool) \<Rightarrow> 'a list \<Rightarrow> int" where
  "findIndex P [] = - 1"
| "findIndex P (x # xs) =
     (if P x then 0 else (let k = findIndex P xs in if k < 0 then - 1 else k + 1))"

definition pickupIndex :: "string \<Rightarrow> Waypoint list \<Rightarrow> int" where
  "pickupIndex rid wps = findIndex (\<lambda>w. wp_type w = Pickup \<and> wp_requestId w = rid) wps"

definition dropoffIndex :: "string \<Rightarrow> Waypoint list \<Rightarrow> int" where
  "dropoffIndex rid wps = findIndex (\<lambda>w. wp_type w = Dropoff \<and> wp_requestId w = rid) wps"

text \<open>
  The loop \<^verbatim>\<open>for (i = pickupIdx; i < dropoffIdx; i++)\<close> over
  \<^verbatim>\<open>waypoints[i].location\<close> and \<^verbatim>\<open>waypoints[i + 1].location\<close>; reading
  \<^verbatim>\<open>.location\<close> of an element outside the array throws.
\<close>

definition legDistance :: "Waypoint list \<Rightarrow> int \<Rightarrow> int \<Rightarrow> failure + real" where
  "legDistance wps pickupIdx dropoffIdx =
     (if pickupIdx < dropoffIdx \<and> (pickupIdx < 0 \<or> int (length wps) \<le> dropoffIdx)
      then Inl TypeError
      else Inr (sum_list (map (\<lambda>i. calculateDistance (wp_location (wps ! i))
                                      (wp_location (wps ! (i + 1))))
                           [nat pickupIdx..<nat dropoffIdx])))"

definition detourOf :: "Waypoint list \<Rightarrow> RideRequest \<Rightarrow> failure + int" where
  "detourOf wps request =
     (let directDistance = calculateDistance (req_pickup request) (req_dropoff request);
          directTime = estimateTravelTime directDistance;
          pickupIdx = pickupIndex (req_id request) wps;
          dropoffIdx = dropoffIndex (req_id request) wps
      in case legDistance wps pickupIdx dropoffIdx of
           Inl e \<Rightarrow> Inl e
         | Inr actualDist \<Rightarrow>
             (let actualTime = estimateTravelTime actualDist in Inr (actualTime - directTime)))"

text \<open>\<^verbatim>\<open>group.map(...)\<close> with a callback that may throw: the first exception ends the map.\<close>

fun mapResult :: "('a \<Rightarrow> failure + 'b) \<Rightarrow> 'a list \<Rightarrow> failure + 'b list" where
  "mapResult f [] = Inr []"
| "mapResult f (x # xs) =
     (case f x of
        Inl e \<Rightarrow> Inl e
      | Inr y \<Rightarrow> (case mapResult f xs of Inl e \<Rightarrow> Inl e | Inr ys \<Rightarrow> Inr (y # ys)))"

definition calculateDetours :: "RideRequest list \<Rightarrow> RouteResult \<Rightarrow> failure + int list" where
  "calculateDetours grp route = mapResult (detourOf (waypoints route)) grp"

definition validateDetours :: "EngineConfig \<Rightarrow> RideRequest list \<Rightarrow> int list \<Rightarrow> bool" where
  "validateDetours cfg grp detours =
     list_all (\<lambda>(request, detour).
         let directTime = estimateTravelTime
               (calculateDistance (req_pickup request) (req_dropoff request));
             maxDetour = (real_of_int directTime * real (MAX_DETOUR_PCT cfg)) / 100
         in real_of_int detour \<le> max maxDetour (real_of_int (req_maxDetourMinutes request)))
       (zip grp detours)"

text \<open>
  The score divides by the route's total distance. For a route of length 0 JavaScript
  yields \<^verbatim>\<open>Infinity\<close> or \<^verbatim>\<open>NaN\<close> where the real-number division yields 0; the
  scenarios evaluated below have routes of positive length.
\<close>

definition calculateMatchScore :: "EngineConfig \<Rightarrow> RideRequest list \<Rightarrow> RouteResult \<Rightarrow> int list \<Rightarrow> real" where
  "calculateMatchScore cfg grp route detours =
     (let groupSize = length grp;
          avgDetour = real_of_int (foldl (+) 0 detours) / real (length detours);
          directDistances =
            foldl (\<lambda>sum r. sum + calculateDistance (req_pickup r) (req_dropoff r)) 0 grp;
          efficiency = directDistances / totalDistance route;
          sizeScore = (real groupSize / real (MAX_PASSENGERS cfg)) * 40;
          efficiencyScore = efficiency * 40;
          detourScore = max 0 (20 - avgDetour)
      in min 100 (sizeScore + efficiencyScore + detourScore))"

definition calculateSavings :: "RideRequest list \<Rightarrow> RouteResult \<Rightarrow> real" where
  "calculateSavings grp route =
     (let individualCosts =
            foldl (\<lambda>sum r. sum + calculateDistance (req_pickup r) (req_dropoff r) * 2.5) 0 grp;
          sharedCost = totalDistance route * 2.5
      in individualCosts - sharedCost)"

definition createLeg :: "Waypoint list \<Rightarrow> RideRequest \<Rightarrow> PassengerInfo" where
  "createLeg wps r =
     \<lparr>leg_requestId = req_id r, leg_userId = req_userId r, leg_pickup = req_pickup r,
      leg_dropoff = req_dropoff r, leg_passengers = req_passengers r,
      leg_luggage = req_luggage r,
      leg_pickupOrder = pickupIndex (req_id r) wps,
      leg_dropoffOrder = dropoffIndex (req_id r) wps,
      leg_fare = 0, leg_detourMinutes = 0\<rparr>"

definition createRide :: "RideRequest list \<Rightarrow> RouteResult \<Rightarrow> Ride" where
  "createRide grp route =
     \<lparr>ride_passengers = map (createLeg (waypoints route)) grp,
      ride_route = map wp_location (waypoints route),
      ride_totalDistance = totalDistance route,
      ride_estimatedDuration = estimatedDuration route,
      ride_basePrice = None, ride_surgeFactor = None\<rparr>"

text \<open>\<^verbatim>\<open>Math.max(...detours)\<close> for the detours of a group, which is never empty.\<close>

definition maxOf :: "int list \<Rightarrow> int" where
  "maxOf xs = fold max (tl xs) (hd xs)"

text \<open>
  One round of the loop over the candidate groups: \<open>Inr None\<close> is \<^verbatim>\<open>continue\<close>,
  \<open>Inr (Some m)\<close> is the match pushed. A route whose \<^verbatim>\<open>waypoints\<close> is null makes
  \<^verbatim>\<open>calculateDetours\<close> throw at \<^verbatim>\<open>route.waypoints.findIndex\<close>.
\<close>

definition tryGroup :: "EngineConfig \<Rightarrow> RideRequest \<Rightarrow> RideRequest list \<Rightarrow> failure + MatchResult option" where
  "tryGroup cfg request grp =
     (if \<not> canAddToGroup cfg request grp then Inr None
      else
        let combinedGroup = grp @ [request]
        in if \<not> checkConstraints cfg combinedGroup then Inr None
           else
             (case optimizeRoute combinedGroup of
                Inl e \<Rightarrow> Inl TypeError
              | Inr route \<Rightarrow>
                  (case calculateDetours combinedGroup route of
                     Inl e \<Rightarrow> Inl e
                   | Inr detours \<Rightarrow>
                       if \<not> validateDetours cfg combinedGroup detours then Inr None
                       else Inr (Some
                         \<lparr>score = calculateMatchScore cfg combinedGroup route detours,
                          ride = createRide combinedGroup route,
                          savings = calculateSavings combinedGroup route,
                          detourTime = maxOf detours\<rparr>))))"

fun tryGroups :: "EngineConfig \<Rightarrow> RideRequest \<Rightarrow> RideRequest list list \<Rightarrow> MatchResult list \<Rightarrow> failure + MatchResult list" where
  "tryGroups cfg request [] matches = Inr matches"
| "tryGroups cfg request (grp # rest) matches =
     (case tryGroup cfg request grp of
        Inl e \<Rightarrow> Inl e
      | Inr None \<Rightarrow> tryGroups cfg request rest matches
      | Inr (Some m) \<Rightarrow> tryGroups cfg request rest (matches @ [m]))"

definition soloMatch :: "RideRequest \<Rightarrow> MatchResult" where
  "soloMatch request =
     \<lparr>score = 50, ride = createRide [request] (createSimpleRoute request),
      savings = 0, detourTime = 0\<rparr>"

text \<open>
  \<^verbatim>\<open>matches.sort((a, b) => b.score - a.score)\<close> is a stable sort by descending
  score; \<^const>\<open>sort_key\<close> is stable as well.
\<close>

definition findMatches :: "EngineConfig \<Rightarrow> RideRequest \<Rightarrow> RideRequest list \<Rightarrow> failure + MatchResult list" where
  "findMatches cfg request activeRequests =
     (let nearbyRequests = filterNearbyRequests request activeRequests;
          groups = createRequestGroups cfg nearbyRequests
      in case tryGroups cfg request groups [soloMatch request] of
           Inl e \<Rightarrow> Inl e
         | Inr matches \<Rightarrow> Inr (take 5 (sort_key (\<lambda>m. - score m) matches)))"

section \<open>Pricing of match results (RideService.findMatches)\<close>

text \<open>
  \<^verbatim>\<open>calculatePassengerDistance\<close>: the loop
  \<^verbatim>\<open>for (i = pickupIdx; i < dropoffIdx && i < route.length - 1; i++)\<close> adds
  \<open>sqrt(latDiff\<^sup>2 + lngDiff\<^sup>2) * 111\<close> for every step. \<open>passengerKm\<close> is that sum; the
  loop throws when it is entered at a negative index, where \<^verbatim>\<open>route[i]\<close> is undefined.
\<close>

definition stepKm :: "Location \<Rightarrow> Location \<Rightarrow> real" where
  "stepKm from to =
     (let latDiff = latitude to - latitude from;
          lngDiff = longitude to - longitude from
      in sqrt (latDiff * latDiff + lngDiff * lngDiff) * 111)"

definition passengerKm :: "PassengerInfo \<Rightarrow> Location list \<Rightarrow> real" where
  "passengerKm passenger route =
     (let pickupIdx = leg_pickupOrder passenger;
          dropoffIdx = leg_dropoffOrder passenger
      in sum_list (map (\<lambda>i. stepKm (route ! i) (route ! (i + 1)))
                    [nat pickupIdx..<nat (min dropoffIdx (int (length route) - 1))]))"

definition calculatePassengerDistance :: "PassengerInfo \<Rightarrow> Location list \<Rightarrow> failure + real" where
  "calculatePassengerDistance passenger route =
     (let pickupIdx = leg_pickupOrder passenger;
          dropoffIdx = leg_dropoffOrder passenger
      in if pickupIdx < dropoffIdx \<and> pickupIdx < int (length route) - 1 \<and> pickupIdx < 0
         then Inl TypeError
         else Inr (passengerKm passenger route))"

definition priceLeg :: "real \<Rightarrow> int \<Rightarrow> nat \<Rightarrow> Location list \<Rightarrow> PassengerInfo \<Rightarrow> failure + PassengerInfo" where
  "priceLeg surge currentHour totalPassengers route passenger =
     (case calculatePassengerDistance passenger route of
        Inl e \<Rightarrow> Inl e
      | Inr passengerDistance \<Rightarrow>
          Inr (passenger\<lparr>leg_fare := calculateFare
                 \<lparr>baseDistance = passengerDistance, actualDistance = passengerDistance,
                  passengers = leg_passengers passenger, surgeFactor = surge,
                  timeOfDay = currentHour, totalPassengersInRide = Some totalPassengers\<rparr>\<rparr>))"

definition priceMatch :: "real \<Rightarrow> int \<Rightarrow> MatchResult \<Rightarrow> failure + MatchResult" where
  "priceMatch surge currentHour m =
     (let totalPassengers = foldl (\<lambda>sum p. sum + leg_passengers p) 0 (ride_passengers (ride m))
      in case mapResult (priceLeg surge currentHour totalPassengers (ride_route (ride m)))
                (ride_passengers (ride m)) of
           Inl e \<Rightarrow> Inl e
         | Inr legs \<Rightarrow> Inr (m\<lparr>ride := (ride m)\<lparr>ride_passengers := legs\<rparr>\<rparr>))"

text \<open>
  The pricing loop over the matches the engine returned, for the surge factor and the
  hour that \<^verbatim>\<open>getCurrentSurgeFactor\<close> and the clock supply.
\<close>

definition priceMatches :: "real \<Rightarrow> int \<Rightarrow> MatchResult list \<Rightarrow> failure + MatchResult list" where
  "priceMatches surge currentHour matches = mapResult (priceMatch surge currentHour) matches"

section \<open>The relational store (database/schema.sql)\<close>

text \<open>
  The tables the coordinator reads and writes, each as the list of its rows, with the
  columns its statements touch. Request rows are \<open>RideRequest\<close> values. Cab rows carry
  no version column. The \<^verbatim>\<open>route\<close> column is JSON: the array of locations that
  \<^verbatim>\<open>confirmBooking\<close> stores, or an object with a \<^verbatim>\<open>waypoints\<close> array, which
  is what \<^verbatim>\<open>completeRide\<close> looks for.
\<close>

record CabRow =
  cab_id :: string
  cab_isAvailable :: bool
  cab_currentLat :: "real option"
  cab_currentLng :: "real option"

datatype RouteJson = JsonLocations "Location list" | JsonWaypoints "Waypoint list"

record RideRow =
  rd_id :: string
  rd_cabId :: string
  rd_route :: RouteJson
  rd_totalDistance :: real
  rd_estimatedDuration :: int
  rd_basePrice :: real
  rd_surgeFactor :: real
  rd_status :: RideStatus
  rd_version :: int

record PassengerRow =
  rp_rideId :: string
  rp_requestId :: string
  rp_pickupOrder :: int
  rp_dropoffOrder :: int
  rp_fare :: real
  rp_detourMinutes :: int

record Database =
  db_requests :: "RideRequest list"
  db_cabs :: "CabRow list"
  db_rides :: "RideRow list"
  db_passengers :: "PassengerRow list"

text \<open>
  The errors the services throw, \<open>ConstraintViolation\<close> for a statement the store
  rejects (primary key, foreign key or uniqueness), and \<open>CacheUnavailable\<close> for a
  cache command that rejects.
\<close>

datatype ServiceError =
    RequestNotFound | RequestAlreadyProcessed | NoAvailableCabs
  | RideNotFound | RideAlreadyCancelled | CannotCancelCompleted
  | RideAlreadyCompleted | CannotCompleteCancelled | CanOnlyStartConfirmed
  | ConstraintViolation | CacheUnavailable

text \<open>
  The key-value cache (config/redis.ts): the keys it holds and whether the client
  reaches the server. \<^verbatim>\<open>redisClient.del(key)\<close> removes the key, or rejects when the
  server is not reached. A request is cached under \<^verbatim>\<open>request:<id>\<close>.
\<close>

record Cache =
  cache_connected :: bool
  cache_keys :: "string list"

definition cacheDel :: "Cache \<Rightarrow> string \<Rightarrow> ServiceError + Cache" where
  "cacheDel cache key =
     (if cache_connected cache then Inr (cache\<lparr>cache_keys := removeAll key (cache_keys cache)\<rparr>)
      else Inl CacheUnavailable)"

definition requestKey :: "string \<Rightarrow> string" where
  "requestKey requestId = ''request:'' @ requestId"

text \<open>
  \<^verbatim>\<open>BEGIN ... COMMIT\<close> inside \<^verbatim>\<open>try\<close>, \<^verbatim>\<open>ROLLBACK\<close> in \<^verbatim>\<open>catch\<close>: the
  body works on the rows it was given; when it throws, the store keeps the rows it had
  at \<^verbatim>\<open>BEGIN\<close>, otherwise it takes the rows the body produced. This is the shape
  of \<^verbatim>\<open>cancelRide\<close>, \<^verbatim>\<open>completeRide\<close> and \<^verbatim>\<open>startRide\<close>, which do nothing
  after \<^verbatim>\<open>COMMIT\<close>.
\<close>

definition transaction ::
  "(Database \<Rightarrow> ServiceError + ('a \<times> Database)) \<Rightarrow> Database \<Rightarrow> (ServiceError + 'a) \<times> Database" where
  "transaction body db =
     (case body db of
        Inl e \<Rightarrow> (Inl e, db)
      | Inr (v, db') \<Rightarrow> (Inr v, db'))"

text \<open>\<^verbatim>\<open>UPDATE t SET ... WHERE cond\<close>: every row that satisfies \<open>cond\<close> is rewritten.\<close>

definition updateWhere :: "('r \<Rightarrow> bool) \<Rightarrow> ('r \<Rightarrow> 'r) \<Rightarrow> 'r list \<Rightarrow> 'r list" where
  "updateWhere cond f rows = map (\<lambda>r. if cond r then f r else r) rows"

text \<open>\<^verbatim>\<open>SELECT request_id FROM ride_passengers WHERE ride_id = $2\<close>\<close>

definition requestIdsOfRide :: "Database \<Rightarrow> string \<Rightarrow> string list" where
  "requestIdsOfRide db rideId =
     map rp_requestId (filter (\<lambda>p. rp_rideId p = rideId) (db_passengers db))"

text \<open>\<^verbatim>\<open>x || d\<close> on an optional number: \<^verbatim>\<open>undefined\<close> and \<open>0\<close> are falsy.\<close>

definition numberOr :: "real option \<Rightarrow> real \<Rightarrow> real" where
  "numberOr x d = (case x of None \<Rightarrow> d | Some v \<Rightarrow> if v = 0 then d else v)"

section \<open>Booking coordinator (services/RideService.ts)\<close>

text \<open>
  One round of the loop over \<^verbatim>\<open>rideData.passengers\<close>: the insert into
  \<^verbatim>\<open>ride_passengers\<close> (rejected when the request id is not a request row or the pair
  of ride and request is already there), then the update of the request row.
\<close>

definition addPassenger :: "string \<Rightarrow> PassengerInfo \<Rightarrow> Database \<Rightarrow> ServiceError + Database" where
  "addPassenger rideId passenger db =
     (if leg_requestId passenger \<notin> set (map req_id (db_requests db)) then Inl ConstraintViolation
      else if (rideId, leg_requestId passenger)
                \<in> set (map (\<lambda>p. (rp_rideId p, rp_requestId p)) (db_passengers db))
      then Inl ConstraintViolation
      else
        (let row = \<lparr>rp_rideId = rideId, rp_requestId = leg_requestId passenger,
                    rp_pickupOrder = leg_pickupOrder passenger,
                    rp_dropoffOrder = leg_dropoffOrder passenger,
                    rp_fare = leg_fare passenger,
                    rp_detourMinutes = leg_detourMinutes passenger\<rparr>;
             db1 = db\<lparr>db_passengers := db_passengers db @ [row]\<rparr>
         in Inr (db1\<lparr>db_requests :=
                   updateWhere (\<lambda>r. req_id r = leg_requestId passenger)
                     (\<lambda>r. r\<lparr>req_status := CONFIRMED, req_version := req_version r + 1\<rparr>)
                     (db_requests db1)\<rparr>)))"

fun addPassengers :: "string \<Rightarrow> PassengerInfo list \<Rightarrow> Database \<Rightarrow> ServiceError + Database" where
  "addPassengers rideId [] db = Inr db"
| "addPassengers rideId (passenger # rest) db =
     (case addPassenger rideId passenger db of
        Inl e \<Rightarrow> Inl e
      | Inr db' \<Rightarrow> addPassengers rideId rest db')"

text \<open>
  The statements between \<^verbatim>\<open>BEGIN\<close> and \<^verbatim>\<open>COMMIT\<close>. \<open>rideId\<close> is the fresh
  identifier \<^verbatim>\<open>uuidv4()\<close> supplies; the cab is the first available row
  (\<^verbatim>\<open>LIMIT 1\<close>).
\<close>

definition confirmBookingBody ::
  "string \<Rightarrow> Ride \<Rightarrow> string \<Rightarrow> Database \<Rightarrow> ServiceError + (string \<times> Database)" where
  "confirmBookingBody requestId rideData rideId db =
     (case filter (\<lambda>r. req_id r = requestId) (db_requests db) of
        [] \<Rightarrow> Inl RequestNotFound
      | row # _ \<Rightarrow>
          if req_status row \<noteq> PENDING then Inl RequestAlreadyProcessed
          else
            (case find cab_isAvailable (db_cabs db) of
               None \<Rightarrow> Inl NoAvailableCabs
             | Some cab \<Rightarrow>
                 (let cabId = cab_id cab;
                      db1 = db\<lparr>db_cabs := updateWhere (\<lambda>c. cab_id c = cabId)
                                 (\<lambda>c. c\<lparr>cab_isAvailable := False\<rparr>) (db_cabs db)\<rparr>
                  in if rideId \<in> set (map rd_id (db_rides db1)) then Inl ConstraintViolation
                     else
                       (let rideRow =
                              \<lparr>rd_id = rideId, rd_cabId = cabId,
                               rd_route = JsonLocations (ride_route rideData),
                               rd_totalDistance = ride_totalDistance rideData,
                               rd_estimatedDuration = ride_estimatedDuration rideData,
                               rd_basePrice = numberOr (ride_basePrice rideData) 0,
                               rd_surgeFactor = numberOr (ride_surgeFactor rideData) 1.0,
                               rd_status = CONFIRMED, rd_version = 1\<rparr>;
                            db2 = db1\<lparr>db_rides := db_rides db1 @ [rideRow]\<rparr>
                        in case addPassengers rideId (ride_passengers rideData) db2 of
                             Inl e \<Rightarrow> Inl e
                           | Inr db3 \<Rightarrow> Inr (rideId, db3)))))"

text \<open>
  The whole \<^verbatim>\<open>try\<close> block: the statements up to \<^verbatim>\<open>COMMIT\<close>, then the delete of
  the request's cache entry. \<^verbatim>\<open>catch\<close> issues \<^verbatim>\<open>ROLLBACK\<close> and rethrows: when the
  body threw, the store keeps the rows it had at \<^verbatim>\<open>BEGIN\<close>; when the cache delete
  rejects, the transaction is already committed and \<^verbatim>\<open>ROLLBACK\<close> undoes nothing.
  The result is the outcome of the call, the store and the cache after it.
\<close>

definition confirmBooking ::
  "Database \<Rightarrow> Cache \<Rightarrow> string \<Rightarrow> Ride \<Rightarrow> string
     \<Rightarrow> (ServiceError + string) \<times> Database \<times> Cache" where
  "confirmBooking db cache requestId rideData rideId =
     (case confirmBookingBody requestId rideData rideId db of
        Inl e \<Rightarrow> (Inl e, db, cache)
      | Inr (newRideId, db') \<Rightarrow>
          (case cacheDel cache (requestKey requestId) of
             Inl e \<Rightarrow> (Inl e, db', cache)
           | Inr cache' \<Rightarrow> (Inr newRideId, db', cache')))"

definition cancelRideBody :: "string \<Rightarrow> Database \<Rightarrow> ServiceError + (unit \<times> Database)" where
  "cancelRideBody rideId db =
     (case filter (\<lambda>r. rd_id r = rideId) (db_rides db) of
        [] \<Rightarrow> Inl RideNotFound
      | row # _ \<Rightarrow>
          if rd_status row = CANCELLED then Inl RideAlreadyCancelled
          else if rd_status row = COMPLETED then Inl CannotCancelCompleted
          else
            (let cabId = rd_cabId row;
                 db1 = db\<lparr>db_rides := updateWhere (\<lambda>r. rd_id r = rideId)
                            (\<lambda>r. r\<lparr>rd_status := CANCELLED, rd_version := rd_version r + 1\<rparr>)
                            (db_rides db)\<rparr>;
                 db2 = db1\<lparr>db_cabs := updateWhere (\<lambda>c. cab_id c = cabId)
                            (\<lambda>c. c\<lparr>cab_isAvailable := True\<rparr>) (db_cabs db1)\<rparr>;
                 db3 = db2\<lparr>db_requests :=
                            updateWhere (\<lambda>r. req_id r \<in> set (requestIdsOfRide db2 rideId))
                              (\<lambda>r. r\<lparr>req_status := PENDING\<rparr>) (db_requests db2)\<rparr>
             in Inr ((), db3)))"

definition cancelRide :: "Database \<Rightarrow> string \<Rightarrow> (ServiceError + unit) \<times> Database" where
  "cancelRide db rideId = transaction (cancelRideBody rideId) db"

text \<open>
  \<^verbatim>\<open>UPDATE ride_requests SET status = 'CANCELLED' WHERE id = $2 AND status = 'PENDING'\<close>,
  a single statement outside any transaction, followed by the delete of the request's
  cache entry.
\<close>

definition markNoDriverAvailable ::
  "Database \<Rightarrow> Cache \<Rightarrow> string \<Rightarrow> (ServiceError + unit) \<times> Database \<times> Cache" where
  "markNoDriverAvailable db cache requestId =
     (let db' = db\<lparr>db_requests :=
                   updateWhere (\<lambda>r. req_id r = requestId \<and> req_status r = PENDING)
                     (\<lambda>r. r\<lparr>req_status := CANCELLED\<rparr>) (db_requests db)\<rparr>
      in case cacheDel cache (requestKey requestId) of
           Inl e \<Rightarrow> (Inl e, db', cache)
         | Inr cache' \<Rightarrow> (Inr (), db', cache'))"

section \<open>Trip completion (services/RideCompletionService.ts)\<close>

text \<open>
  The final dropoff read from the \<^verbatim>\<open>route\<close> column: \<^verbatim>\<open>route.waypoints\<close> of a
  stored array is undefined, so only an object with a non-empty \<^verbatim>\<open>waypoints\<close> array
  whose last element is a dropoff yields coordinates.
\<close>

definition finalDropoff :: "RouteJson \<Rightarrow> (real \<times> real) option" where
  "finalDropoff route =
     (case route of
        JsonLocations _ \<Rightarrow> None
      | JsonWaypoints wps \<Rightarrow>
          if length wps > 0 then
            (let lastWaypoint = wps ! (length wps - 1)
             in if wp_type lastWaypoint = Dropoff
                then Some (latitude (wp_location lastWaypoint), longitude (wp_location lastWaypoint))
                else None)
          else None)"

text \<open>
  \<^verbatim>\<open>if (finalDropoffLat && finalDropoffLng)\<close>: a coordinate that is \<open>0\<close> is falsy,
  as \<^verbatim>\<open>null\<close> is.
\<close>

definition freeCab :: "(real \<times> real) option \<Rightarrow> CabRow \<Rightarrow> CabRow" where
  "freeCab dropoff c =
     (case dropoff of
        Some (lat, lng) \<Rightarrow>
          if lat \<noteq> 0 \<and> lng \<noteq> 0
          then c\<lparr>cab_isAvailable := True, cab_currentLat := Some lat, cab_currentLng := Some lng\<rparr>
          else c\<lparr>cab_isAvailable := True\<rparr>
      | None \<Rightarrow> c\<lparr>cab_isAvailable := True\<rparr>)"

definition completeRideBody :: "string \<Rightarrow> Database \<Rightarrow> ServiceError + (unit \<times> Database)" where
  "completeRideBody rideId db =
     (case filter (\<lambda>r. rd_id r = rideId) (db_rides db) of
        [] \<Rightarrow> Inl RideNotFound
      | row # _ \<Rightarrow>
          if rd_status row = COMPLETED then Inl RideAlreadyCompleted
          else if rd_status row = CANCELLED then Inl CannotCompleteCancelled
          else
            (let cabId = rd_cabId row;
                 dropoff = finalDropoff (rd_route row);
                 db1 = db\<lparr>db_rides := updateWhere (\<lambda>r. rd_id r = rideId)
                            (\<lambda>r. r\<lparr>rd_status := COMPLETED, rd_version := rd_version r + 1\<rparr>)
                            (db_rides db)\<rparr>;
                 db2 = db1\<lparr>db_cabs := updateWhere (\<lambda>c. cab_id c = cabId)
                            (freeCab dropoff) (db_cabs db1)\<rparr>;
                 db3 = db2\<lparr>db_requests :=
                            updateWhere (\<lambda>r. req_id r \<in> set (requestIdsOfRide db2 rideId))
                              (\<lambda>r. r\<lparr>req_status := COMPLETED\<rparr>) (db_requests db2)\<rparr>
             in Inr ((), db3)))"

definition completeRide :: "Database \<Rightarrow> string \<Rightarrow> (ServiceError + unit) \<times> Database" where
  "completeRide db rideId = transaction (completeRideBody rideId) db"

definition startRideBody :: "string \<Rightarrow> Database \<Rightarrow> ServiceError + (unit \<times> Database)" where
  "startRideBody rideId db =
     (case filter (\<lambda>r. rd_id r = rideId) (db_rides db) of
        [] \<Rightarrow> Inl RideNotFound
      | row # _ \<Rightarrow>
          if rd_status row \<noteq> CONFIRMED then Inl CanOnlyStartConfirmed
          else
            (let db1 = db\<lparr>db_rides := updateWhere (\<lambda>r. rd_id r = rideId)
                            (\<lambda>r. r\<lparr>rd_status := IN_PROGRESS, rd_version := rd_version r + 1\<rparr>)
                            (db_rides db)\<rparr>;
                 db2 = db1\<lparr>db_requests :=
                            updateWhere (\<lambda>r. req_id r \<in> set (requestIdsOfRide db1 rideId))
                              (\<lambda>r. r\<lparr>req_status := IN_PROGRESS\<rparr>) (db_requests db1)\<rparr>
             in Inr ((), db2)))"

definition startRide :: "Database \<Rightarrow> string \<Rightarrow> (ServiceError + unit) \<times> Database" where
  "startRide db rideId = transaction (startRideBody rideId) db"

section \<open>Notions used in the statements and proofs\<close>

text \<open>The length of a route, and the route that visits all pickups and then all dropoffs in input order.\<close>

definition routeKm :: "Waypoint list \<Rightarrow> real" where
  "routeKm route = calculateRouteDistance (map wp_location route)"

definition naiveRoute :: "RideRequest list \<Rightarrow> Waypoint list" where
  "naiveRoute requests = map pickupWaypoint requests @ map dropoffWaypoint requests"

text \<open>
  The ids with a pickup (dropoff) waypoint on a route, and the invariant of the greedy
  loop: the route built so far is valid, every picked-up id has its pickup on the
  route, every request is either still waiting or has its pickup on the route, and
  every pickup on the route is either still on board or has its dropoff on the route.
\<close>

definition pickupIds :: "Waypoint list \<Rightarrow> string set" where
  "pickupIds route = {wp_requestId w | w. w \<in> set route \<and> wp_type w = Pickup}"

definition dropoffIds :: "Waypoint list \<Rightarrow> string set" where
  "dropoffIds route = {wp_requestId w | w. w \<in> set route \<and> wp_type w = Dropoff}"

definition greedyInv :: "RideRequest list \<Rightarrow> Waypoint list \<Rightarrow> string list \<Rightarrow> Waypoint list \<Rightarrow> bool" where
  "greedyInv requests wps pickedUp route \<longleftrightarrow>
     isValidRouteFrom {} route
   \<and> set pickedUp \<subseteq> pickupIds route
   \<and> req_id ` set requests \<subseteq> wp_requestId ` set wps \<union> pickupIds route
   \<and> pickupIds route \<subseteq> set pickedUp \<union> dropoffIds route
   \<and> set wps \<subseteq> pickupWaypoint ` set requests
   \<and> set pickedUp \<subseteq> req_id ` set requests"

text \<open>
  The versions of the rows with a given id, the row \<^verbatim>\<open>confirmBooking\<close> inserts for a
  passenger leg, the update it applies to a request row, and the pairs of ride and
  request under the uniqueness constraint of \<^verbatim>\<open>ride_passengers\<close>.
\<close>

definition rideVersions :: "Database \<Rightarrow> string \<Rightarrow> int list" where
  "rideVersions db rideId = map rd_version (filter (\<lambda>r. rd_id r = rideId) (db_rides db))"

definition requestVersions :: "Database \<Rightarrow> string \<Rightarrow> int list" where
  "requestVersions db requestId = map req_version (filter (\<lambda>r. req_id r = requestId) (db_requests db))"

definition legRow :: "string \<Rightarrow> PassengerInfo \<Rightarrow> PassengerRow" where
  "legRow rideId passenger =
     \<lparr>rp_rideId = rideId, rp_requestId = leg_requestId passenger,
      rp_pickupOrder = leg_pickupOrder passenger, rp_dropoffOrder = leg_dropoffOrder passenger,
      rp_fare = leg_fare passenger, rp_detourMinutes = leg_detourMinutes passenger\<rparr>"

definition confirmRequest :: "RideRequest \<Rightarrow> RideRequest" where
  "confirmRequest r = r\<lparr>req_status := CONFIRMED, req_version := req_version r + 1\<rparr>"

definition ridePairs :: "Database \<Rightarrow> (string \<times> string) set" where
  "ridePairs db = set (map (\<lambda>p. (rp_rideId p, rp_requestId p)) (db_passengers db))"

text \<open>
  The fare of a passenger leg in the words of the specification: the per-passenger
  amount with the discount tier of the trip's total passenger count, multiplied by the
  passengers of this booking, floored at the minimum fare; and a match result whose
  legs are priced that way.
\<close>

definition specFare :: "real \<Rightarrow> int \<Rightarrow> nat \<Rightarrow> real \<Rightarrow> nat \<Rightarrow> real" where
  "specFare surge hour totalPassengersInTrip distanceKm passengersInThisBooking =
     (let perPassenger = (BASE_FARE + distanceKm * RATE_PER_KM) * surge * getTimeMultiplier hour
                           * (1 - getPoolingDiscount totalPassengersInTrip);
          totalFare = perPassenger * real passengersInThisBooking
      in max MIN_FARE (round2 totalFare))"

definition tripPassengers :: "MatchResult \<Rightarrow> nat" where
  "tripPassengers m = sum_list (map leg_passengers (ride_passengers (ride m)))"

definition pricedWith :: "real \<Rightarrow> int \<Rightarrow> MatchResult \<Rightarrow> MatchResult" where
  "pricedWith surge hour m =
     m\<lparr>ride := (ride m)\<lparr>ride_passengers :=
         map (\<lambda>leg. leg\<lparr>leg_fare :=
                 specFare surge hour (tripPassengers m)
                   (passengerKm leg (ride_route (ride m))) (leg_passengers leg)\<rparr>)
           (ride_passengers (ride m))\<rparr>\<rparr>"

text \<open>Every leg of the match has its pickup on the route.\<close>

definition legsFound :: "MatchResult \<Rightarrow> bool" where
  "legsFound m = list_all (\<lambda>leg. 0 \<le> leg_pickupOrder leg) (ride_passengers (ride m))"

text \<open>The statuses of the request rows with a given id, and the rides a request is a passenger of.\<close>

definition requestStatuses :: "Database \<Rightarrow> string \<Rightarrow> RideStatus list" where
  "requestStatuses db requestId = map req_status (filter (\<lambda>r. req_id r = requestId) (db_requests db))"

definition ridesOfRequest :: "Database \<Rightarrow> string \<Rightarrow> string list" where
  "ridesOfRequest db requestId =
     map rp_rideId (filter (\<lambda>p. rp_requestId p = requestId) (db_passengers db))"

section \<open>Concrete scenarios\<close>

text \<open>
  Two points on the meridian 74 W, 0.1 degrees of latitude apart, and requests between
  them that differ in their id and passenger count only (the other fields as in the
  mock request of the repository's matching test).
\<close>

definition terminalA :: Location where
  "terminalA = \<lparr>latitude = 40, longitude = - 74, address = None\<rparr>"

definition hotelB :: Location where
  "hotelB = \<lparr>latitude = 40.1, longitude = - 74, address = None\<rparr>"

definition sameTrip :: "string \<Rightarrow> nat \<Rightarrow> RideRequest" where
  "sameTrip i n =
     \<lparr>req_id = i, req_userId = ''user-123'', req_pickup = terminalA, req_dropoff = hotelB,
      req_requestedAt = 0, req_passengers = n, req_luggage = [], req_maxDetourMinutes = 15,
      req_status = PENDING, req_version = 1\<rparr>"

text \<open>The great-circle distance between the two points.\<close>

definition tripKm :: real where
  "tripKm = 6371 * (pi / 1800)"

definition pooledSameTrip :: "string \<Rightarrow> nat \<Rightarrow> string \<Rightarrow> nat \<Rightarrow> MatchResult" where
  "pooledSameTrip i n j m =
     \<lparr>score = 100,
      ride = createRide [sameTrip i n, sameTrip j m]
        \<lparr>waypoints = [pickupWaypoint (sameTrip i n), pickupWaypoint (sameTrip j m),
                       dropoffWaypoint (sameTrip i n), dropoffWaypoint (sameTrip j m)],
          totalDistance = tripKm, estimatedDuration = estimateTravelTime tripKm\<rparr>,
      savings = tripKm * 2.5, detourTime = 0\<rparr>"

text \<open>A one-passenger target and five three-passenger candidates on the same trip.\<close>

definition soloTarget :: RideRequest where
  "soloTarget = sameTrip ''t'' 1"

definition fiveCandidates :: "RideRequest list" where
  "fiveCandidates = map (\<lambda>i. sameTrip i 3) [''c1'', ''c2'', ''c3'', ''c4'', ''c5'']"

definition pooledFive :: "MatchResult list" where
  "pooledFive =
     [pooledSameTrip ''c1'' 3 ''t'' 1, pooledSameTrip ''c2'' 3 ''t'' 1,
      pooledSameTrip ''c3'' 3 ''t'' 1, pooledSameTrip ''c4'' 3 ''t'' 1,
      pooledSameTrip ''c5'' 3 ''t'' 1]"

text \<open>The two requests of the capacity test of the repository: 2 + 1 passengers, 3 + 1 luggage units.\<close>

definition twoCompatible :: "RideRequest list" where
  "twoCompatible =
     [(sameTrip ''a'' 2)\<lparr>req_luggage := [SMALL, MEDIUM]\<rparr>,
      (sameTrip ''b'' 1)\<lparr>req_luggage := [SMALL]\<rparr>]"

text \<open>
  Five one-passenger requests between points on the prime meridian (latitudes in
  degrees), and the route the greedy fallback builds for them.
\<close>

definition onMeridian :: "real \<Rightarrow> Location" where
  "onMeridian a = \<lparr>latitude = a, longitude = 0, address = None\<rparr>"

definition hop :: "string \<Rightarrow> real \<Rightarrow> real \<Rightarrow> RideRequest" where
  "hop i a b =
     \<lparr>req_id = i, req_userId = ''user-123'', req_pickup = onMeridian a, req_dropoff = onMeridian b,
      req_requestedAt = 0, req_passengers = 1, req_luggage = [], req_maxDetourMinutes = 15,
      req_status = PENDING, req_version = 1\<rparr>"

definition kmPerDegree :: real where
  "kmPerDegree = 6371 * (pi / 180)"

definition greedyFive :: "RideRequest list" where
  "greedyFive = [hop ''r1'' 0 0, hop ''r2'' 0.4 10, hop ''r3'' 0.5 10, hop ''r4'' 0.1 10,
                 hop ''r5'' 0.2 0.25]"

definition greedyFiveRoute :: RouteResult where
  "greedyFiveRoute =
     \<lparr>waypoints =
        [pickupWaypoint (hop ''r1'' 0 0), dropoffWaypoint (hop ''r1'' 0 0),
         pickupWaypoint (hop ''r4'' 0.1 10), pickupWaypoint (hop ''r5'' 0.2 0.25),
         dropoffWaypoint (hop ''r4'' 0.1 10), pickupWaypoint (hop ''r3'' 0.5 10),
         pickupWaypoint (hop ''r2'' 0.4 10), dropoffWaypoint (hop ''r2'' 0.4 10),
         dropoffWaypoint (hop ''r3'' 0.5 10), dropoffWaypoint (hop ''r5'' 0.2 0.25)],
      totalDistance = kmPerDegree * 38.95,
      estimatedDuration = estimateTravelTime (kmPerDegree * 38.95)\<rparr>"

text \<open>
  A store with the pending target and one cab (available, or not), the solo ride
  offered to the target, and a store with that ride booked.
\<close>

definition cabOne :: CabRow where
  "cabOne = \<lparr>cab_id = ''cab-1'', cab_isAvailable = True, cab_currentLat = None, cab_currentLng = None\<rparr>"


definition bookingDb :: Database where
  "bookingDb = \<lparr>db_requests = [soloTarget], db_cabs = [cabOne], db_rides = [], db_passengers = []\<rparr>"


definition tripDb :: Database where
  "tripDb =
     \<lparr>db_requests = [soloTarget\<lparr>req_status := CONFIRMED, req_version := 2\<rparr>],
      db_cabs = [cabOne\<lparr>cab_isAvailable := False\<rparr>],
      db_rides = [\<lparr>rd_id = ''ride-1'', rd_cabId = ''cab-1'',
                   rd_route = JsonLocations [terminalA, hotelB],
                   rd_totalDistance = tripKm, rd_estimatedDuration = 17,
                   rd_basePrice = 0, rd_surgeFactor = 1, rd_status = CONFIRMED, rd_version = 1\<rparr>],
      db_passengers = [\<lparr>rp_rideId = ''ride-1'', rp_requestId = ''t'', rp_pickupOrder = 0,
                        rp_dropoffOrder = 1, rp_fare = 8, rp_detourMinutes = 0\<rparr>]\<rparr>"

text \<open>
  A target from latitude 0 to 0.10 and a candidate from 0.03 to 0.02 on the prime
  meridian: the shortest valid route picks up the target, then serves the candidate,
  then drops the target, who travels 0.12 degrees instead of 0.10.
\<close>

definition detourTarget :: RideRequest where
  "detourTarget = hop ''t'' 0 0.10"

definition detourCandidate :: RideRequest where
  "detourCandidate = hop ''c'' 0.03 0.02"

definition detourRoute :: RouteResult where
  "detourRoute =
     \<lparr>waypoints = [pickupWaypoint detourTarget, pickupWaypoint detourCandidate,
                   dropoffWaypoint detourCandidate, dropoffWaypoint detourTarget],
      totalDistance = kmPerDegree * 0.12,
      estimatedDuration = estimateTravelTime (kmPerDegree * 0.12)\<rparr>"

definition targetDetour :: int where
  "targetDetour = estimateTravelTime (kmPerDegree * 0.12) - estimateTravelTime (kmPerDegree * 0.10)"

definition pooledDetour :: MatchResult where
  "pooledDetour =
     \<lparr>score = calculateMatchScore defaultConfig [detourCandidate, detourTarget] detourRoute
                [0, targetDetour],
      ride = createRide [detourCandidate, detourTarget] detourRoute,
      savings = calculateSavings [detourCandidate, detourTarget] detourRoute,
      detourTime = targetDetour\<rparr>"

definition detourDb :: Database where
  "detourDb = \<lparr>db_requests = [detourTarget, detourCandidate], db_cabs = [cabOne],
                db_rides = [], db_passengers = []\<rparr>"

text \<open>A cache that answers and one that does not, both holding the target's entry.\<close>

definition liveCache :: Cache where
  "liveCache = \<lparr>cache_connected = True, cache_keys = [''request:t'']\<rparr>"


text \<open>
  A store in which the candidate \<open>c\<close> is already confirmed (version 2) as the passenger
  of \<open>ride-0\<close> in cab \<open>cab-0\<close>, the target is pending and \<open>cab-1\<close> is free; and the
  pooled ride of \<open>c\<close> and the target that matching offered while \<open>c\<close> was still pending.
\<close>

definition doubleDb :: Database where
  "doubleDb =
     \<lparr>db_requests = [soloTarget, (sameTrip ''c'' 3)\<lparr>req_status := CONFIRMED, req_version := 2\<rparr>],
      db_cabs = [\<lparr>cab_id = ''cab-0'', cab_isAvailable = False, cab_currentLat = None,
                   cab_currentLng = None\<rparr>, cabOne],
      db_rides = [\<lparr>rd_id = ''ride-0'', rd_cabId = ''cab-0'',
                   rd_route = JsonLocations [terminalA, hotelB],
                   rd_totalDistance = tripKm, rd_estimatedDuration = 17,
                   rd_basePrice = 0, rd_surgeFactor = 1, rd_status = CONFIRMED, rd_version = 1\<rparr>],
      db_passengers = [\<lparr>rp_rideId = ''ride-0'', rp_requestId = ''c'', rp_pickupOrder = 0,
                        rp_dropoffOrder = 1, rp_fare = 83.25, rp_detourMinutes = 0\<rparr>]\<rparr>"

definition stalePooledRide :: Ride where
  "stalePooledRide = ride (pricedWith 1 12 (pooledSameTrip ''c'' 3 ''t'' 1))"

section \<open>Geometry and route evaluation lemmas\<close>

lemma atan2_abs_sin_cos:
  assumes "\<bar>h\<bar> < pi / 2"
  shows "atan2 \<bar>sin h\<bar> \<bar>cos h\<bar> = \<bar>h\<bar>"
proof -
  have c: "0 < cos h" using assms by (intro cos_gt_zero_pi) auto
  have c': "0 < cos \<bar>h\<bar>" using assms by (intro cos_gt_zero_pi) auto
  have s: "0 \<le> sin \<bar>h\<bar>" using assms by (intro sin_ge_zero) auto
  have "\<bar>sin h\<bar> / \<bar>cos h\<bar> = \<bar>tan h\<bar>" by (simp add: tan_def)
  also have "\<dots> = tan \<bar>h\<bar>"
  proof (cases "0 \<le> h")
    case True
    then have "0 \<le> tan h" using assms by (intro tan_pos_pi2_le) auto
    then show ?thesis using True by simp
  next
    case False
    then have "0 \<le> tan (- h)" using assms by (intro tan_pos_pi2_le) auto
    then show ?thesis using False by (simp add: abs_if)
  qed
  finally have "arctan (\<bar>sin h\<bar> / \<bar>cos h\<bar>) = \<bar>h\<bar>"
    using assms by (simp add: arctan_tan)
  then show ?thesis using c by (simp add: atan2_def)
qed

lemma calculateDistance_meridian:
  assumes "\<bar>b - a\<bar> < 180"
  shows "calculateDistance \<lparr>latitude = a, longitude = l, address = x\<rparr>
           \<lparr>latitude = b, longitude = l, address = y\<rparr> = 6371 * (\<bar>b - a\<bar> * pi / 180)"
proof -
  define h where "h = toRad (b - a) / 2"
  have h: "\<bar>h\<bar> < pi / 2"
  proof -
    have "\<bar>h\<bar> = \<bar>b - a\<bar> * (pi / 360)" by (simp add: h_def toRad_def abs_mult)
    also have "\<dots> < 180 * (pi / 360)" using assms by (intro mult_strict_right_mono) auto
    finally show ?thesis by simp
  qed
  have "sin h * sin h + cos h * cos h = 1"
    by (simp flip: power2_eq_square)
  then have "1 - sin h * sin h = cos h * cos h"
    by linarith
  then have "2 * atan2 (sqrt (sin h * sin h)) (sqrt (1 - sin h * sin h)) = 2 * \<bar>h\<bar>"
    using atan2_abs_sin_cos [OF h] by simp
  also have "\<dots> = \<bar>b - a\<bar> * pi / 180" by (simp add: h_def toRad_def abs_mult)
  finally have c: "2 * atan2 (sqrt (sin h * sin h)) (sqrt (1 - sin h * sin h)) = \<bar>b - a\<bar> * pi / 180" .
  have "calculateDistance \<lparr>latitude = a, longitude = l, address = x\<rparr>
           \<lparr>latitude = b, longitude = l, address = y\<rparr>
        = 6371 * (2 * atan2 (sqrt (sin h * sin h)) (sqrt (1 - sin h * sin h)))"
    by (simp add: calculateDistance_def Let_def h_def toRad_def)
  then show ?thesis
    by (simp only: c)
qed

lemma permute4:
  "permute [a, b, c, d] 0 = filter isValidRoute
     [[a, b, c, d], [a, b, d, c], [a, c, b, d], [a, c, d, b], [a, d, c, b], [a, d, b, c],
      [b, a, c, d], [b, a, d, c], [b, c, a, d], [b, c, d, a], [b, d, c, a], [b, d, a, c],
      [c, b, a, d], [c, b, d, a], [c, a, b, d], [c, a, d, b], [c, d, a, b], [c, d, b, a],
      [d, b, c, a], [d, b, a, c], [d, c, b, a], [d, c, a, b], [d, a, c, b], [d, a, b, c]]"
  by (simp add: permute.simps [of _ 0] permute.simps [of _ "Suc 0"] permute.simps [of _ "Suc (Suc 0)"]
       permute.simps [of _ "Suc (Suc (Suc 0))"] swap_def upt_rec [of _ 4] upt_rec [of _ "length _"])

lemma tripKm_pos: "0 < tripKm"
  by (simp add: tripKm_def)

lemma dist_AA: "calculateDistance terminalA terminalA = 0"
  by (simp add: terminalA_def calculateDistance_meridian)

lemma dist_BB: "calculateDistance hotelB hotelB = 0"
  by (simp add: hotelB_def calculateDistance_meridian)

lemma dist_AB: "calculateDistance terminalA hotelB = tripKm"
  by (simp add: terminalA_def hotelB_def calculateDistance_meridian tripKm_def)

lemma dist_BA: "calculateDistance hotelB terminalA = tripKm"
  by (simp add: terminalA_def hotelB_def calculateDistance_meridian tripKm_def)

lemmas dists = dist_AA dist_BB dist_AB dist_BA

lemma pickupWaypoint_sel:
  "wp_type (pickupWaypoint r) = Pickup" "wp_requestId (pickupWaypoint r) = req_id r"
  "wp_location (pickupWaypoint r) = req_pickup r" "wp_passengers (pickupWaypoint r) = req_passengers r"
  by (simp_all add: pickupWaypoint_def)

lemma dropoffWaypoint_sel:
  "wp_type (dropoffWaypoint r) = Dropoff" "wp_requestId (dropoffWaypoint r) = req_id r"
  "wp_location (dropoffWaypoint r) = req_dropoff r" "wp_passengers (dropoffWaypoint r) = req_passengers r"
  by (simp_all add: dropoffWaypoint_def)

lemmas wp_sel = pickupWaypoint_sel dropoffWaypoint_sel

lemma sameTrip_sel:
  "req_id (sameTrip i n) = i" "req_pickup (sameTrip i n) = terminalA"
  "req_dropoff (sameTrip i n) = hotelB" "req_passengers (sameTrip i n) = n"
  "req_luggage (sameTrip i n) = []" "req_maxDetourMinutes (sameTrip i n) = 15"
  by (simp_all add: sameTrip_def)

lemma validRoutes_sameTrip:
  assumes "i \<noteq> j"
  shows "generateValidRoutes (allWaypoints [sameTrip i n, sameTrip j m]) rs =
    [[pickupWaypoint (sameTrip i n), dropoffWaypoint (sameTrip i n), pickupWaypoint (sameTrip j m), dropoffWaypoint (sameTrip j m)],
     [pickupWaypoint (sameTrip i n), pickupWaypoint (sameTrip j m), dropoffWaypoint (sameTrip i n), dropoffWaypoint (sameTrip j m)],
     [pickupWaypoint (sameTrip i n), pickupWaypoint (sameTrip j m), dropoffWaypoint (sameTrip j m), dropoffWaypoint (sameTrip i n)],
     [pickupWaypoint (sameTrip j m), pickupWaypoint (sameTrip i n), dropoffWaypoint (sameTrip i n), dropoffWaypoint (sameTrip j m)],
     [pickupWaypoint (sameTrip j m), pickupWaypoint (sameTrip i n), dropoffWaypoint (sameTrip j m), dropoffWaypoint (sameTrip i n)],
     [pickupWaypoint (sameTrip j m), dropoffWaypoint (sameTrip j m), pickupWaypoint (sameTrip i n), dropoffWaypoint (sameTrip i n)]]"
  using assms
  by (simp add: generateValidRoutes_def allWaypoints_def permute4 isValidRoute_def wp_sel sameTrip_sel)

lemma optimizeRoute_sameTrip:
  assumes "i \<noteq> j"
  shows "optimizeRoute [sameTrip i n, sameTrip j m] =
     Inr \<lparr>waypoints = [pickupWaypoint (sameTrip i n), pickupWaypoint (sameTrip j m),
                       dropoffWaypoint (sameTrip i n), dropoffWaypoint (sameTrip j m)],
          totalDistance = tripKm, estimatedDuration = estimateTravelTime tripKm\<rparr>"
  using tripKm_pos
  by (simp add: optimizeRoute_def optimizeRouteDynamic_def validRoutes_sameTrip [OF assms]
      wp_sel sameTrip_sel dists Let_def)

lemma detours_sameTrip:
  assumes "i \<noteq> j"
  shows "calculateDetours [sameTrip i n, sameTrip j m]
     \<lparr>waypoints = [pickupWaypoint (sameTrip i n), pickupWaypoint (sameTrip j m),
                       dropoffWaypoint (sameTrip i n), dropoffWaypoint (sameTrip j m)],
          totalDistance = tripKm, estimatedDuration = estimateTravelTime tripKm\<rparr> = Inr [0, 0]"
  using assms
  by (simp add: calculateDetours_def detourOf_def pickupIndex_def dropoffIndex_def legDistance_def
      wp_sel sameTrip_sel dists Let_def upt_rec [of _ "numeral _"] upt_rec [of _ "Suc _"])

lemma tryGroup_sameTrip:
  assumes "i \<noteq> j" "n + m \<le> 4"
  shows "tryGroup defaultConfig (sameTrip j m) [sameTrip i n] = Inr (Some (pooledSameTrip i n j m))"
  using assms tripKm_pos
  by (simp add: tryGroup_def canAddToGroup_def checkConstraints_def totalPassengersOf_def
      totalLuggageOf_def defaultConfig_def optimizeRoute_sameTrip detours_sameTrip
      validateDetours_def calculateMatchScore_def calculateSavings_def maxOf_def
      pooledSameTrip_def sameTrip_sel dists Let_def)

lemma filterNearby_five: "filterNearbyRequests soloTarget fiveCandidates = fiveCandidates"
  by (simp add: filterNearbyRequests_def soloTarget_def fiveCandidates_def sameTrip_sel dists
      SEARCH_RADIUS_KM_def)

lemma groups_five:
  "createRequestGroups defaultConfig fiveCandidates = map (\<lambda>r. [r]) fiveCandidates"
  by (simp add: createRequestGroups_def fiveCandidates_def checkConstraints_def
      totalPassengersOf_def defaultConfig_def sameTrip_sel Let_def
      upt_rec [of _ "numeral _"] upt_rec [of _ "Suc _"])

lemma tryGroups_five:
  "tryGroups defaultConfig soloTarget (map (\<lambda>r. [r]) fiveCandidates) [soloMatch soloTarget] =
     Inr (soloMatch soloTarget # map (\<lambda>i. pooledSameTrip i 3 ''t'' 1) [''c1'', ''c2'', ''c3'', ''c4'', ''c5''])"
  by (simp add: fiveCandidates_def soloTarget_def tryGroup_sameTrip)

lemma score_sel: "score (soloMatch r) = 50" "score (pooledSameTrip i n j m) = 100"
  by (simp_all add: soloMatch_def pooledSameTrip_def)

lemma findMatches_five: "findMatches defaultConfig soloTarget fiveCandidates = Inr pooledFive"
  unfolding findMatches_def Let_def filterNearby_five groups_five tryGroups_five
  by (simp add: score_sel pooledFive_def)

section \<open>Properties of the route optimizer\<close>

lemma length_swap [simp]: "length (swap arr i j) = length arr"
  by (simp add: swap_def)

lemma mset_swap_eq: "i < length arr \<Longrightarrow> j < length arr \<Longrightarrow> mset (swap arr i j) = mset arr"
  unfolding swap_def by (simp add: mset_swap)

lemma take_swap: "start \<le> i \<Longrightarrow> take start (swap arr start i) = take start arr"
  by (simp add: swap_def)

lemma nth_swap_start: "start \<le> i \<Longrightarrow> i < length arr \<Longrightarrow> swap arr start i ! start = arr ! i"
  by (cases "i = start") (simp_all add: swap_def)

lemma permute_sound:
  "ys \<in> set (permute arr start) \<Longrightarrow> mset ys = mset arr \<and> isValidRoute ys"
proof (induction arr start rule: permute.induct)
  case (1 arr start)
  show ?case
  proof (cases "int start = int (length arr) - 1")
    case True
    with "1.prems" show ?thesis
      by (simp add: permute.simps [of arr start] split: if_splits)
  next
    case False
    with "1.prems" obtain i where i: "i \<in> set [start..<length arr]"
      and ys: "ys \<in> set (permute (swap arr start i) (Suc start))"
      by (subst (asm) permute.simps) auto
    from "1.IH" [OF False i ys] i show ?thesis
      by (simp add: mset_swap_eq)
  qed
qed

lemma last_eq_of_mset:
  assumes "mset xs = mset arr" "take n xs = take n arr" "Suc n = length arr"
  shows "xs = arr"
proof -
  have len: "length xs = length arr" using assms(1) by (metis size_mset)
  have xs: "xs = take n xs @ [xs ! n]"
    using len assms(3) by (metis lessI take_Suc_conv_app_nth take_all order_refl)
  have arr: "arr = take n arr @ [arr ! n]"
    using assms(3) by (metis lessI take_Suc_conv_app_nth take_all order_refl)
  have "mset (take n xs) + {#xs ! n#} = mset (take n arr) + {#arr ! n#}"
    using assms(1) xs arr by (metis mset.simps(2) mset_append mset.simps(1) union_mset_add_mset_right add.right_neutral)
  then have "xs ! n = arr ! n" using assms(2) by simp
  then show ?thesis using xs arr assms(2) by metis
qed

lemma permute_complete:
  "start < length arr \<Longrightarrow> mset xs = mset arr \<Longrightarrow> take start xs = take start arr \<Longrightarrow>
   isValidRoute xs \<Longrightarrow> xs \<in> set (permute arr start)"
proof (induction arr start rule: permute.induct)
  case (1 arr start)
  have len: "length xs = length arr" using "1.prems"(2) by (metis size_mset)
  show ?case
  proof (cases "int start = int (length arr) - 1")
    case True
    then have "Suc start = length arr" by simp
    with "1.prems" have "xs = arr" by (intro last_eq_of_mset [of xs arr start]) auto
    with True "1.prems"(4) show ?thesis
      by (simp add: permute.simps [of arr start])
  next
    case False
    with "1.prems"(1) have lt: "Suc start < length arr" by simp
    have "mset (take start xs) + mset (drop start xs) = mset (take start arr) + mset (drop start arr)"
      using "1.prems"(2) by (metis append_take_drop_id mset_append)
    then have md: "mset (drop start xs) = mset (drop start arr)"
      using "1.prems"(3) by simp
    have "xs ! start \<in> set (drop start xs)"
      using len "1.prems"(1) by (metis Cons_nth_drop_Suc list.set_intros(1))
    then have "xs ! start \<in> set (drop start arr)"
      using md by (metis set_mset_mset)
    then obtain k where k: "k < length (drop start arr)" "drop start arr ! k = xs ! start"
      by (auto simp: in_set_conv_nth)
    define i where "i = start + k"
    have i: "start \<le> i" "i < length arr" "arr ! i = xs ! start"
      using k by (auto simp: i_def)
    have iset: "i \<in> set [start..<length arr]" using i by simp
    have t: "take (Suc start) xs = take (Suc start) (swap arr start i)"
    proof -
      have "take (Suc start) xs = take start xs @ [xs ! start]"
        using len "1.prems"(1) by (simp add: take_Suc_conv_app_nth)
      also have "\<dots> = take start (swap arr start i) @ [swap arr start i ! start]"
        using i "1.prems"(3) by (simp add: take_swap nth_swap_start)
      also have "\<dots> = take (Suc start) (swap arr start i)"
        using "1.prems"(1) by (simp add: take_Suc_conv_app_nth)
      finally show ?thesis .
    qed
    have m: "mset xs = mset (swap arr start i)"
      using "1.prems"(1,2) i by (simp add: mset_swap_eq)
    have "xs \<in> set (permute (swap arr start i) (Suc start))"
      using "1.IH" [OF False iset _ m t "1.prems"(4)] lt by simp
    with iset False show ?thesis
      by (subst permute.simps) auto
  qed
qed

lemma pickBest_Some:
  "best \<noteq> None \<or> routes \<noteq> [] \<Longrightarrow> \<exists>r d. pickBest best routes = Some (r, d)"
proof (induction routes arbitrary: best)
  case Nil
  then show ?case by auto
next
  case (Cons route rest)
  show ?case
    by (simp add: Let_def) (rule Cons.IH, auto split: option.splits)
qed

lemma pickBest_result:
  "pickBest best routes = Some (r, d) \<Longrightarrow>
     (best = Some (r, d) \<or> (r \<in> set routes \<and> d = routeKm r))
     \<and> (\<forall>r' \<in> set routes. d \<le> routeKm r')
     \<and> (\<forall>br bd. best = Some (br, bd) \<longrightarrow> d \<le> bd)"
proof (induction routes arbitrary: best)
  case Nil
  then show ?case by auto
next
  case (Cons route rest)
  let ?d = "routeKm route"
  let ?best' = "case best of None \<Rightarrow> Some (route, ?d)
                | Some (bestRoute, bestDistance) \<Rightarrow>
                    if ?d < bestDistance then Some (route, ?d) else best"
  have p: "pickBest ?best' rest = Some (r, d)"
    unfolding routeKm_def using Cons.prems by (simp add: Let_def)
  note ih = Cons.IH [OF p]
  have le: "d \<le> ?d"
    using ih by (cases best) (auto split: if_splits)
  show ?case
  proof (intro conjI)
    show "best = Some (r, d) \<or> r \<in> set (route # rest) \<and> d = routeKm r"
      using ih by (cases best) (auto split: if_splits)
    show "\<forall>r'\<in>set (route # rest). d \<le> routeKm r'"
      using ih le by auto
    show "\<forall>br bd. best = Some (br, bd) \<longrightarrow> d \<le> bd"
      using ih by (cases best) (auto split: if_splits)
  qed
qed

lemma isValidRouteFrom_append:
  "isValidRouteFrom S (xs @ ys) =
     (isValidRouteFrom S xs \<and>
      isValidRouteFrom (S \<union> {wp_requestId w | w. w \<in> set xs \<and> wp_type w = Pickup}) ys)"
proof (induction xs arbitrary: S)
  case Nil
  show ?case by simp
next
  case (Cons x xs)
  have eq: "insert (wp_requestId x) S \<union> {wp_requestId w | w. w \<in> set xs \<and> wp_type w = Pickup}
      = S \<union> {wp_requestId w | w. w \<in> set (x # xs) \<and> wp_type w = Pickup}"
    if "wp_type x = Pickup"
    using that by auto
  have eq2: "{wp_requestId w | w. w \<in> set xs \<and> wp_type w = Pickup}
      = {wp_requestId w | w. w \<in> set (x # xs) \<and> wp_type w = Pickup}"
    if "wp_type x \<noteq> Pickup"
    using that by auto
  show ?case
  proof (cases "wp_type x = Pickup")
    case True
    then show ?thesis using Cons.IH [of "insert (wp_requestId x) S"] eq by simp
  next
    case False
    then show ?thesis using Cons.IH [of S] eq2 by auto
  qed
qed

lemma isValidRouteFrom_mono: "isValidRouteFrom S xs \<Longrightarrow> S \<subseteq> T \<Longrightarrow> isValidRouteFrom T xs"
proof (induction xs arbitrary: S T)
  case Nil
  show ?case by simp
next
  case (Cons x xs)
  show ?case
  proof (cases "wp_type x = Pickup")
    case True
    with Cons.prems have "isValidRouteFrom (insert (wp_requestId x) S) xs" by simp
    then have "isValidRouteFrom (insert (wp_requestId x) T) xs"
      by (rule Cons.IH) (use Cons.prems in auto)
    with True show ?thesis by simp
  next
    case False
    with Cons.prems have "wp_requestId x \<in> S" "isValidRouteFrom S xs"
      by (auto split: if_splits)
    with False Cons.prems(2) Cons.IH [of S T] show ?thesis by auto
  qed
qed

lemma isValid_dropoffs:
  "set rs \<subseteq> S' \<Longrightarrow> isValidRouteFrom (req_id ` S') (map dropoffWaypoint rs)"
  by (induction rs) (auto simp: dropoffWaypoint_def)

lemma isValid_pickups: "isValidRouteFrom S (map pickupWaypoint rs)"
  by (induction rs arbitrary: S) (auto simp: pickupWaypoint_def)

lemma naiveRoute_valid: "isValidRoute (naiveRoute requests)"
proof -
  have "req_id ` set requests \<subseteq>
      {} \<union> {wp_requestId w | w. w \<in> set (map pickupWaypoint requests) \<and> wp_type w = Pickup}"
  proof
    fix x assume "x \<in> req_id ` set requests"
    then obtain r where r: "r \<in> set requests" "x = req_id r" by auto
    then have "pickupWaypoint r \<in> set (map pickupWaypoint requests)" by simp
    moreover have "wp_type (pickupWaypoint r) = Pickup" "wp_requestId (pickupWaypoint r) = x"
      using r by (simp_all add: wp_sel)
    ultimately show "x \<in> {} \<union> {wp_requestId w | w. w \<in> set (map pickupWaypoint requests) \<and> wp_type w = Pickup}"
      by blast
  qed
  moreover have "isValidRouteFrom (req_id ` set requests) (map dropoffWaypoint requests)"
    by (rule isValid_dropoffs) simp
  ultimately have "isValidRouteFrom
      ({} \<union> {wp_requestId w | w. w \<in> set (map pickupWaypoint requests) \<and> wp_type w = Pickup})
      (map dropoffWaypoint requests)"
    by (rule isValidRouteFrom_mono [rotated])
  then show ?thesis
    unfolding isValidRoute_def naiveRoute_def isValidRouteFrom_append
    using isValid_pickups by simp
qed

lemma naiveRoute_mset: "mset (naiveRoute requests) = mset (allWaypoints requests)"
  by (induction requests) (simp_all add: naiveRoute_def allWaypoints_def)

lemma naiveRoute_locations:
  "map wp_location (naiveRoute requests) = map req_pickup requests @ map req_dropoff requests"
  by (simp add: naiveRoute_def pickupWaypoint_def dropoffWaypoint_def comp_def)

lemma findIndex_ge: "- 1 \<le> findIndex P xs"
  by (induction xs) (auto simp: Let_def)

lemma findIndex_nonneg_iff: "0 \<le> findIndex P xs \<longleftrightarrow> (\<exists>x \<in> set xs. P x)"
  using findIndex_ge [of P]
  by (induction xs) (auto simp: Let_def)

lemma findIndex_less_length: "findIndex P xs < int (length xs)"
  by (induction xs) (auto simp: Let_def)

lemma findIndex_Cons_not: "\<not> P x \<Longrightarrow> 0 \<le> findIndex P xs \<Longrightarrow> findIndex P (x # xs) = findIndex P xs + 1"
  by (simp add: Let_def)

lemma valid_precedence:
  "isValidRouteFrom S route \<Longrightarrow> rid \<notin> S \<Longrightarrow> 0 \<le> dropoffIndex rid route \<Longrightarrow>
     0 \<le> pickupIndex rid route \<and> pickupIndex rid route < dropoffIndex rid route"
proof (induction route arbitrary: S)
  case Nil
  then show ?case by (simp add: dropoffIndex_def)
next
  case (Cons w rest)
  show ?case
  proof (cases "wp_type w = Pickup")
    case True
    note pick = this
    from Cons.prems(3) True have d: "0 \<le> dropoffIndex rid rest"
      "dropoffIndex rid (w # rest) = dropoffIndex rid rest + 1"
      by (auto simp: dropoffIndex_def Let_def split: if_splits)
    show ?thesis
    proof (cases "wp_requestId w = rid")
      case True
      with pick d show ?thesis by (simp add: pickupIndex_def)
    next
      case False
      from Cons.prems(1) pick have "isValidRouteFrom (insert (wp_requestId w) S) rest" by simp
      moreover have "rid \<notin> insert (wp_requestId w) S" using False Cons.prems(2) by auto
      ultimately have ih: "0 \<le> pickupIndex rid rest \<and> pickupIndex rid rest < dropoffIndex rid rest"
        using d(1) by (rule Cons.IH)
      then have "pickupIndex rid (w # rest) = pickupIndex rid rest + 1"
        using False by (simp add: pickupIndex_def Let_def)
      with ih d show ?thesis by simp
    qed
  next
    case False
    then have drop: "wp_type w = Dropoff" by (cases "wp_type w") auto
    from Cons.prems(1) False have v: "wp_requestId w \<in> S" "isValidRouteFrom S rest"
      by (auto split: if_splits)
    with Cons.prems(2) have ne: "wp_requestId w \<noteq> rid" by auto
    from Cons.prems(3) ne have d: "0 \<le> dropoffIndex rid rest"
      "dropoffIndex rid (w # rest) = dropoffIndex rid rest + 1"
      by (auto simp: dropoffIndex_def Let_def split: if_splits)
    from v(2) Cons.prems(2) d(1)
    have ih: "0 \<le> pickupIndex rid rest \<and> pickupIndex rid rest < dropoffIndex rid rest"
      by (rule Cons.IH)
    then have "pickupIndex rid (w # rest) = pickupIndex rid rest + 1"
      using drop by (simp add: pickupIndex_def Let_def)
    with ih d show ?thesis by simp
  qed
qed

lemma dropoffIndex_found:
  "dropoffWaypoint req \<in> set route \<Longrightarrow> 0 \<le> dropoffIndex (req_id req) route"
  unfolding dropoffIndex_def findIndex_nonneg_iff
  by (rule bexI [of _ "dropoffWaypoint req"]) (simp_all add: wp_sel)

lemma dropoff_in_allWaypoints:
  "req \<in> set requests \<Longrightarrow> dropoffWaypoint req \<in> set (allWaypoints requests)"
  by (auto simp: allWaypoints_def)

lemma optimizeRouteDynamic_correct:
  assumes "requests \<noteq> []"
  shows "\<exists>route. optimizeRouteDynamic requests = Inr route
     \<and> (\<forall>req \<in> set requests.
           0 \<le> pickupIndex (req_id req) (waypoints route)
         \<and> pickupIndex (req_id req) (waypoints route) < dropoffIndex (req_id req) (waypoints route))
     \<and> mset (waypoints route) = mset (allWaypoints requests)
     \<and> totalDistance route = routeKm (waypoints route)
     \<and> totalDistance route \<le> routeKm (naiveRoute requests)"
proof -
  let ?wps = "allWaypoints requests"
  let ?routes = "permute ?wps 0"
  have len: "0 < length ?wps"
    using assms by (cases requests) (auto simp: allWaypoints_def)
  have naive: "naiveRoute requests \<in> set ?routes"
    using len by (intro permute_complete) (simp_all add: naiveRoute_mset naiveRoute_valid)
  then have "?routes \<noteq> []" by auto
  then obtain r d where rd: "pickBest None ?routes = Some (r, d)"
    using pickBest_Some [of None ?routes] by auto
  from pickBest_result [OF rd]
  have r: "r \<in> set ?routes" "d = routeKm r" "\<forall>r' \<in> set ?routes. d \<le> routeKm r'"
    by auto
  from permute_sound [OF r(1)] have s: "mset r = mset ?wps" "isValidRoute r" by auto
  have res: "optimizeRouteDynamic requests =
      Inr \<lparr>waypoints = r, totalDistance = d, estimatedDuration = estimateTravelTime d\<rparr>"
    by (simp add: optimizeRouteDynamic_def generateValidRoutes_def Let_def rd)
  have prec: "0 \<le> pickupIndex (req_id req) r \<and> pickupIndex (req_id req) r < dropoffIndex (req_id req) r"
    if "req \<in> set requests" for req
  proof -
    have "dropoffWaypoint req \<in> set ?wps" using that by (rule dropoff_in_allWaypoints)
    then have "dropoffWaypoint req \<in> set r" using s(1) by (metis set_mset_mset)
    then have "0 \<le> dropoffIndex (req_id req) r" by (rule dropoffIndex_found)
    with s(2) show ?thesis
      unfolding isValidRoute_def by (intro valid_precedence [of "{}"]) auto
  qed
  show ?thesis
    using res prec s(1) r(2) r(3) naive by auto
qed

lemma pickupScan_idx:
  "fst (pickupScan cur wps k st) = fst st
   \<or> (int k \<le> fst (pickupScan cur wps k st) \<and> fst (pickupScan cur wps k st) < int k + int (length wps))"
proof (induction wps arbitrary: k st)
  case Nil
  show ?case by simp
next
  case (Cons w rest)
  obtain i d b where st: "st = (i, d, b)" by (cases st)
  let ?st' = "if lessDist (calculateDistance cur (wp_location w)) d
              then (int k, Some (calculateDistance cur (wp_location w)), True) else (i, d, b)"
  have eq: "pickupScan cur (w # rest) k st = pickupScan cur rest (Suc k) ?st'"
    by (simp add: st Let_def)
  from Cons.IH [of "Suc k" ?st'] show ?case
    unfolding eq by (auto simp: st split: if_splits)
qed

lemma pickupScan_keeps:
  "snd (snd st) \<Longrightarrow> 0 \<le> fst st \<Longrightarrow>
     snd (snd (pickupScan cur wps k st)) \<and> 0 \<le> fst (pickupScan cur wps k st)"
proof (induction wps arbitrary: k st)
  case Nil
  then show ?case by simp
next
  case (Cons w rest)
  obtain i d b where st: "st = (i, d, b)" by (cases st)
  have a: "snd (snd (pickupScan cur rest (Suc k) (int k, Some (calculateDistance cur (wp_location w)), True)))
      \<and> 0 \<le> fst (pickupScan cur rest (Suc k) (int k, Some (calculateDistance cur (wp_location w)), True))"
    by (rule Cons.IH) simp_all
  have b: "snd (snd (pickupScan cur rest (Suc k) (i, d, b)))
      \<and> 0 \<le> fst (pickupScan cur rest (Suc k) (i, d, b))"
    using Cons.prems by (intro Cons.IH) (simp_all add: st)
  show ?case
    using a b by (simp add: st Let_def)
qed

lemma pickupScan_nonempty:
  "wps \<noteq> [] \<Longrightarrow> snd (snd (pickupScan cur wps 0 (- 1, None, False)))
     \<and> 0 \<le> fst (pickupScan cur wps 0 (- 1, None, False))"
  by (cases wps) (auto simp: Let_def lessDist_def intro: pickupScan_keeps [THEN conjunct1] pickupScan_keeps [THEN conjunct2])

lemma dropoffScan_nil: "dropoffScan cur [] requests st = st"
  by (induction requests arbitrary: st) (auto simp: prod_cases3)

lemma dropoffScan_idx:
  "fst (dropoffScan cur pickedUp requests st) = fst st \<or> fst (dropoffScan cur pickedUp requests st) = - 1"
proof (induction requests arbitrary: st)
  case Nil
  show ?case by simp
next
  case (Cons r rest)
  obtain i d b where st: "st = (i, d, b)" by (cases st)
  show ?case
    using Cons.IH [of "(i, d, b)"]
      Cons.IH [of "(- 1, Some (calculateDistance cur (req_dropoff r)), False)"]
    by (auto simp: st Let_def)
qed

lemma chooseNext_idx:
  "fst (chooseNext cur requests wps pickedUp) = - 1
   \<or> (0 \<le> fst (chooseNext cur requests wps pickedUp)
      \<and> fst (chooseNext cur requests wps pickedUp) < int (length wps))"
  using dropoffScan_idx [of cur pickedUp requests "pickupScan cur wps 0 (- 1, None, False)"]
    pickupScan_idx [of cur wps 0 "(- 1, None, False)"]
  by (auto simp: chooseNext_def)

lemma chooseNext_no_picked:
  "wps \<noteq> [] \<Longrightarrow> snd (snd (chooseNext cur requests wps [])) \<and> 0 \<le> fst (chooseNext cur requests wps [])"
  by (simp add: chooseNext_def dropoffScan_nil pickupScan_nonempty)

lemma pickupIds_snoc:
  "pickupIds (route @ [w]) = (if wp_type w = Pickup then insert (wp_requestId w) (pickupIds route) else pickupIds route)"
  by (auto simp: pickupIds_def)

lemma dropoffIds_snoc:
  "dropoffIds (route @ [w]) = (if wp_type w = Dropoff then insert (wp_requestId w) (dropoffIds route) else dropoffIds route)"
  by (auto simp: dropoffIds_def)

lemma isValid_snoc:
  "isValidRouteFrom {} (route @ [w]) \<longleftrightarrow>
     isValidRouteFrom {} route \<and> (wp_type w = Pickup \<or> wp_requestId w \<in> pickupIds route)"
  by (cases "wp_type w") (auto simp: isValidRouteFrom_append pickupIds_def)

lemma set_splice1: "i < length xs \<Longrightarrow> set xs = insert (xs ! i) (set (splice1 i xs))"
proof -
  assume i: "i < length xs"
  have "xs = take i xs @ xs ! i # drop (Suc i) xs"
    using i by (simp add: id_take_nth_drop)
  then have "set xs = set (take i xs @ xs ! i # drop (Suc i) xs)" by simp
  then show ?thesis by (simp add: splice1_def)
qed

lemma greedyInv_pickup:
  assumes inv: "greedyInv requests wps pickedUp route" and i: "i < length wps"
  shows "greedyInv requests (splice1 i wps) (setAdd (wp_requestId (wps ! i)) pickedUp) (route @ [wps ! i])"
proof -
  let ?w = "wps ! i"
  have w: "?w \<in> set wps" using i by simp
  then obtain r where r: "r \<in> set requests" "?w = pickupWaypoint r"
    using inv by (auto simp: greedyInv_def)
  have t: "wp_type ?w = Pickup" and id: "wp_requestId ?w = req_id r"
    using r by (simp_all add: wp_sel)
  have s: "set wps = insert ?w (set (splice1 i wps))" using i by (rule set_splice1)
  have sa: "set (setAdd (wp_requestId ?w) pickedUp) = insert (wp_requestId ?w) (set pickedUp)"
    by (auto simp: setAdd_def)
  have 1: "isValidRouteFrom {} (route @ [?w])"
    using inv t by (simp add: isValid_snoc greedyInv_def)
  have 2: "set (setAdd (wp_requestId ?w) pickedUp) \<subseteq> pickupIds (route @ [?w])"
    using inv t by (auto simp: sa pickupIds_snoc greedyInv_def)
  have 3: "req_id ` set requests \<subseteq> wp_requestId ` set (splice1 i wps) \<union> pickupIds (route @ [?w])"
  proof -
    have "req_id ` set requests \<subseteq> wp_requestId ` set wps \<union> pickupIds route"
      using inv by (simp add: greedyInv_def)
    also have "wp_requestId ` set wps = insert (wp_requestId ?w) (wp_requestId ` set (splice1 i wps))"
      by (subst s) simp
    finally show ?thesis using t by (auto simp: pickupIds_snoc)
  qed
  have 4: "pickupIds (route @ [?w]) \<subseteq> set (setAdd (wp_requestId ?w) pickedUp) \<union> dropoffIds (route @ [?w])"
    using inv t by (auto simp: sa pickupIds_snoc dropoffIds_snoc greedyInv_def)
  have 5: "set (splice1 i wps) \<subseteq> pickupWaypoint ` set requests"
    using inv s by (auto simp: greedyInv_def)
  have 6: "set (setAdd (wp_requestId ?w) pickedUp) \<subseteq> req_id ` set requests"
  proof -
    have "set (setAdd (wp_requestId ?w) pickedUp) = insert (req_id r) (set pickedUp)"
      using sa id by simp
    then show ?thesis using inv r(1) by (auto simp: greedyInv_def)
  qed
  show ?thesis
    unfolding greedyInv_def using 1 2 3 4 5 6 by blast
qed

lemma greedyInv_dropoff:
  assumes inv: "greedyInv requests wps pickedUp route" and m: "req_id req \<in> set pickedUp"
  shows "greedyInv requests wps (setDelete (req_id req) pickedUp) (route @ [dropoffWaypoint req])"
proof -
  let ?w = "dropoffWaypoint req"
  have t: "wp_type ?w = Dropoff" "wp_requestId ?w = req_id req" by (simp_all add: wp_sel)
  have sd: "set (setDelete (req_id req) pickedUp) = set pickedUp - {req_id req}"
    by (simp add: setDelete_def)
  have 1: "isValidRouteFrom {} (route @ [?w])"
    using inv m t by (auto simp: isValid_snoc greedyInv_def)
  have "greedyInv requests wps pickedUp route \<Longrightarrow> ?thesis"
    unfolding greedyInv_def sd pickupIds_snoc dropoffIds_snoc
    using 1 t by auto
  then show ?thesis using inv .
qed

lemma greedyLoop_correct:
  "greedyInv requests wps pickedUp route \<Longrightarrow>
     \<exists>r. greedyLoop requests wps pickedUp cur route = Inr r \<and> greedyInv requests [] [] r"
proof (induction requests wps pickedUp cur route rule: greedyLoop.induct)
  case (1 requests wps pickedUp cur route)
  note inv = "1.prems"
  let ?c = "chooseNext cur requests wps pickedUp"
  show ?case
  proof (cases "length wps > 0 \<or> length pickedUp > 0")
    case False
    then have e: "wps = []" "pickedUp = []" by simp_all
    have "greedyLoop requests [] [] cur route = Inr route"
      by (subst greedyLoop.simps) simp
    then show ?thesis using inv e by simp
  next
    case True
    note more = this
    show ?thesis
    proof (cases "snd (snd ?c) \<and> fst ?c \<ge> 0")
      case True
      then have i: "nat (fst ?c) < length wps"
        using chooseNext_idx [of cur requests wps pickedUp] by auto
      let ?wp = "wps ! nat (fst ?c)"
      have inv': "greedyInv requests (splice1 (nat (fst ?c)) wps)
          (setAdd (wp_requestId ?wp) pickedUp) (route @ [?wp])"
        using inv i by (rule greedyInv_pickup)
      have "\<exists>r. greedyLoop requests (splice1 (nat (fst ?c)) wps)
          (setAdd (wp_requestId ?wp) pickedUp) (wp_location ?wp) (route @ [?wp]) = Inr r
          \<and> greedyInv requests [] [] r"
        using more True i inv' by (intro "1.IH"(1) [OF _ refl refl refl _ _ refl]) auto
      moreover have "greedyLoop requests wps pickedUp cur route =
          greedyLoop requests (splice1 (nat (fst ?c)) wps)
            (setAdd (wp_requestId ?wp) pickedUp) (wp_location ?wp) (route @ [?wp])"
        by (subst greedyLoop.simps) (use more True i in \<open>auto simp: Let_def\<close>)
      ultimately show ?thesis by simp
    next
      case False
      have ne: "pickedUp \<noteq> []"
      proof
        assume e: "pickedUp = []"
        with more have "wps \<noteq> []" by auto
        from chooseNext_no_picked [OF this, of cur requests] False e show False by simp
      qed
      then obtain x where x: "x \<in> set pickedUp" by (cases pickedUp) auto
      then have "\<exists>r \<in> set requests. req_id r \<in> set pickedUp"
        using inv by (auto simp: greedyInv_def)
      then obtain req where f: "find (\<lambda>r. req_id r \<in> set pickedUp) requests = Some req"
        by (cases "find (\<lambda>r. req_id r \<in> set pickedUp) requests") (auto simp: find_None_iff)
      then have m: "req_id req \<in> set pickedUp"
        by (auto simp: find_Some_iff)
      have inv': "greedyInv requests wps (setDelete (req_id req) pickedUp) (route @ [dropoffWaypoint req])"
        using inv m by (rule greedyInv_dropoff)
      have "\<exists>r. greedyLoop requests wps (setDelete (req_id req) pickedUp) (req_dropoff req)
          (route @ [dropoffWaypoint req]) = Inr r \<and> greedyInv requests [] [] r"
        using more False f inv' by (intro "1.IH"(2) [OF _ refl refl refl _ _]) auto
      moreover have "greedyLoop requests wps pickedUp cur route =
          greedyLoop requests wps (setDelete (req_id req) pickedUp) (req_dropoff req)
            (route @ [dropoffWaypoint req])"
        by (subst greedyLoop.simps) (use more False f in \<open>auto simp: Let_def\<close>)
      ultimately show ?thesis by simp
    qed
  qed
qed

lemma kmPerDegree_pos: "0 < kmPerDegree"
  by (simp add: kmPerDegree_def)

lemma dist_onMeridian:
  "\<bar>b - a\<bar> < 180 \<Longrightarrow> calculateDistance (onMeridian a) (onMeridian b) = kmPerDegree * \<bar>b - a\<bar>"
  by (simp add: onMeridian_def calculateDistance_meridian kmPerDegree_def)

lemma hop_sel:
  "req_id (hop i a b) = i" "req_pickup (hop i a b) = onMeridian a"
  "req_dropoff (hop i a b) = onMeridian b" "req_passengers (hop i a b) = 1"
  "req_luggage (hop i a b) = []" "req_maxDetourMinutes (hop i a b) = 15"
  by (simp_all add: hop_def)

lemma km_less [simp]: "kmPerDegree * x < kmPerDegree * y \<longleftrightarrow> x < y"
  using kmPerDegree_pos by simp

lemma km_cmp [simp]:
  "kmPerDegree * x < 0 \<longleftrightarrow> x < 0" "0 < kmPerDegree * x \<longleftrightarrow> 0 < x" "\<not> kmPerDegree < 0"
  using kmPerDegree_pos by (simp_all add: mult_less_0_iff zero_less_mult_iff not_less less_imp_le)

lemma greedyLoop_pickup_step:
  assumes "fst (chooseNext cur requests wps pickedUp) = int k"
    and "snd (snd (chooseNext cur requests wps pickedUp))" and "k < length wps"
  shows "greedyLoop requests wps pickedUp cur route =
     greedyLoop requests (splice1 k wps) (setAdd (wp_requestId (wps ! k)) pickedUp)
       (wp_location (wps ! k)) (route @ [wps ! k])"
  by (subst greedyLoop.simps) (use assms in \<open>auto simp: Let_def\<close>)

lemma greedyLoop_dropoff_step:
  assumes "\<not> snd (snd (chooseNext cur requests wps pickedUp))"
    and "find (\<lambda>r. req_id r \<in> set pickedUp) requests = Some req"
  shows "greedyLoop requests wps pickedUp cur route =
     greedyLoop requests wps (setDelete (req_id req) pickedUp) (req_dropoff req)
       (route @ [dropoffWaypoint req])"
proof -
  have "req_id req \<in> set pickedUp" using assms(2) by (auto simp: find_Some_iff)
  then have "pickedUp \<noteq> []" by auto
  then show ?thesis
    by (subst greedyLoop.simps) (use assms in \<open>auto simp: Let_def\<close>)
qed

lemma greedyLoop_done: "greedyLoop requests [] [] cur route = Inr route"
  by (subst greedyLoop.simps) simp

lemmas greedy_eval = chooseNext_def lessDist_def setAdd_def setDelete_def splice1_def wp_sel hop_sel
  dist_onMeridian Let_def kmPerDegree_pos

lemma greedyLoop_five:
  "greedyLoop greedyFive (map pickupWaypoint greedyFive) [] (onMeridian 0) [] = Inr (waypoints greedyFiveRoute)"
proof -
  let ?r1 = "hop ''r1'' 0 0" and ?r2 = "hop ''r2'' 0.4 10" and ?r3 = "hop ''r3'' 0.5 10"
    and ?r4 = "hop ''r4'' 0.1 10" and ?r5 = "hop ''r5'' 0.2 0.25"
  let ?P = pickupWaypoint and ?D = dropoffWaypoint
  let ?g = "greedyLoop greedyFive"
  have "?g [?P ?r1, ?P ?r2, ?P ?r3, ?P ?r4, ?P ?r5] [] (onMeridian 0) []
      = ?g [?P ?r2, ?P ?r3, ?P ?r4, ?P ?r5] [''r1''] (onMeridian 0) [?P ?r1]"
    by (subst greedyLoop_pickup_step [where k = 0]) (simp_all add: greedyFive_def greedy_eval)
  also have "\<dots> = ?g [?P ?r2, ?P ?r3, ?P ?r4, ?P ?r5] [] (onMeridian 0) [?P ?r1, ?D ?r1]"
    by (subst greedyLoop_dropoff_step [where req = ?r1]) (simp_all add: greedyFive_def greedy_eval)
  also have "\<dots> = ?g [?P ?r2, ?P ?r3, ?P ?r5] [''r4''] (onMeridian 0.1) [?P ?r1, ?D ?r1, ?P ?r4]"
    by (subst greedyLoop_pickup_step [where k = 2]) (simp_all add: greedyFive_def greedy_eval)
  also have "\<dots> = ?g [?P ?r2, ?P ?r3] [''r4'', ''r5''] (onMeridian 0.2)
        [?P ?r1, ?D ?r1, ?P ?r4, ?P ?r5]"
    by (subst greedyLoop_pickup_step [where k = 2]) (simp_all add: greedyFive_def greedy_eval)
  also have "\<dots> = ?g [?P ?r2, ?P ?r3] [''r5''] (onMeridian 10)
        [?P ?r1, ?D ?r1, ?P ?r4, ?P ?r5, ?D ?r4]"
    by (subst greedyLoop_dropoff_step [where req = ?r4]) (simp_all add: greedyFive_def greedy_eval)
  also have "\<dots> = ?g [?P ?r2] [''r5'', ''r3''] (onMeridian 0.5)
        [?P ?r1, ?D ?r1, ?P ?r4, ?P ?r5, ?D ?r4, ?P ?r3]"
    by (subst greedyLoop_pickup_step [where k = 1]) (simp_all add: greedyFive_def greedy_eval)
  also have "\<dots> = ?g [] [''r5'', ''r3'', ''r2''] (onMeridian 0.4)
        [?P ?r1, ?D ?r1, ?P ?r4, ?P ?r5, ?D ?r4, ?P ?r3, ?P ?r2]"
    by (subst greedyLoop_pickup_step [where k = 0]) (simp_all add: greedyFive_def greedy_eval)
  also have "\<dots> = ?g [] [''r5'', ''r3''] (onMeridian 10)
        [?P ?r1, ?D ?r1, ?P ?r4, ?P ?r5, ?D ?r4, ?P ?r3, ?P ?r2, ?D ?r2]"
    by (subst greedyLoop_dropoff_step [where req = ?r2]) (simp_all add: greedyFive_def greedy_eval)
  also have "\<dots> = ?g [] [''r5''] (onMeridian 10)
        [?P ?r1, ?D ?r1, ?P ?r4, ?P ?r5, ?D ?r4, ?P ?r3, ?P ?r2, ?D ?r2, ?D ?r3]"
    by (subst greedyLoop_dropoff_step [where req = ?r3]) (simp_all add: greedyFive_def greedy_eval)
  also have "\<dots> = ?g [] [] (onMeridian 0.25)
        [?P ?r1, ?D ?r1, ?P ?r4, ?P ?r5, ?D ?r4, ?P ?r3, ?P ?r2, ?D ?r2, ?D ?r3, ?D ?r5]"
    by (subst greedyLoop_dropoff_step [where req = ?r5]) (simp_all add: greedyFive_def greedy_eval)
  also have "\<dots> = Inr [?P ?r1, ?D ?r1, ?P ?r4, ?P ?r5, ?D ?r4, ?P ?r3, ?P ?r2, ?D ?r2, ?D ?r3, ?D ?r5]"
    by (rule greedyLoop_done)
  finally show ?thesis
    by (simp add: greedyFive_def greedyFiveRoute_def)
qed

lemma optimizeRouteGreedy_correct:
  assumes "requests \<noteq> []"
  shows "\<exists>route. optimizeRouteGreedy requests = Inr route
     \<and> (\<forall>req \<in> set requests.
           0 \<le> pickupIndex (req_id req) (waypoints route)
         \<and> pickupIndex (req_id req) (waypoints route) < dropoffIndex (req_id req) (waypoints route))"
proof -
  obtain q qs where q: "requests = q # qs" using assms by (cases requests) auto
  let ?wps = "map pickupWaypoint requests"
  let ?cur = "wp_location (pickupWaypoint q)"
  have "greedyInv requests ?wps [] []"
    by (auto simp: greedyInv_def pickupIds_def wp_sel image_iff intro!: bexI)
  from greedyLoop_correct [OF this, of ?cur]
  obtain r where r: "greedyLoop requests ?wps [] ?cur [] = Inr r" "greedyInv requests [] [] r"
    by auto
  have res: "optimizeRouteGreedy requests = Inr \<lparr>waypoints = r, totalDistance = routeKm r,
      estimatedDuration = estimateTravelTime (routeKm r)\<rparr>"
    using r(1) by (simp add: optimizeRouteGreedy_def q Let_def routeKm_def)
  have prec: "0 \<le> pickupIndex (req_id req) r \<and> pickupIndex (req_id req) r < dropoffIndex (req_id req) r"
    if "req \<in> set requests" for req
  proof -
    have "req_id req \<in> dropoffIds r"
      using r(2) that by (auto simp: greedyInv_def)
    then have "0 \<le> dropoffIndex (req_id req) r"
      unfolding dropoffIndex_def findIndex_nonneg_iff by (auto simp: dropoffIds_def)
    moreover have "isValidRouteFrom {} r" using r(2) by (simp add: greedyInv_def)
    ultimately show ?thesis by (intro valid_precedence [of "{}"]) auto
  qed
  show ?thesis using res prec by auto
qed

lemma createSimpleRoute_correct:
  "pickupIndex (req_id req) (waypoints (createSimpleRoute req)) = 0"
  "dropoffIndex (req_id req) (waypoints (createSimpleRoute req)) = 1"
  "totalDistance (createSimpleRoute req) = calculateRouteDistance [req_pickup req, req_dropoff req]"
  by (simp_all add: createSimpleRoute_def pickupIndex_def dropoffIndex_def wp_sel Let_def)

lemma optimizeRoute_correct:
  assumes "requests \<noteq> []"
  shows "\<exists>route. optimizeRoute requests = Inr route
     \<and> (\<forall>req \<in> set requests.
           0 \<le> pickupIndex (req_id req) (waypoints route)
         \<and> pickupIndex (req_id req) (waypoints route) < dropoffIndex (req_id req) (waypoints route))
     \<and> (length requests \<le> 4 \<longrightarrow>
           totalDistance route
             \<le> calculateRouteDistance (map req_pickup requests @ map req_dropoff requests))"
proof (cases "length requests = 1")
  case True
  then obtain req where req: "requests = [req]"
    by (cases requests) auto
  show ?thesis
    by (simp add: optimizeRoute_def req createSimpleRoute_correct)
next
  case False
  note not1 = this
  show ?thesis
  proof (cases "length requests \<le> 4")
    case True
    from optimizeRouteDynamic_correct [OF assms] obtain route where
      r: "optimizeRouteDynamic requests = Inr route"
        "\<forall>req \<in> set requests.
           0 \<le> pickupIndex (req_id req) (waypoints route)
         \<and> pickupIndex (req_id req) (waypoints route) < dropoffIndex (req_id req) (waypoints route)"
        "totalDistance route \<le> routeKm (naiveRoute requests)"
      by blast
    have "optimizeRoute requests = Inr route"
      using not1 True r(1) by (simp add: optimizeRoute_def)
    moreover have "routeKm (naiveRoute requests)
        = calculateRouteDistance (map req_pickup requests @ map req_dropoff requests)"
      by (simp add: routeKm_def naiveRoute_locations)
    ultimately show ?thesis using r(2,3) by auto
  next
    case False
    from optimizeRouteGreedy_correct [OF assms] obtain route where
      r: "optimizeRouteGreedy requests = Inr route"
        "\<forall>req \<in> set requests.
           0 \<le> pickupIndex (req_id req) (waypoints route)
         \<and> pickupIndex (req_id req) (waypoints route) < dropoffIndex (req_id req) (waypoints route)"
      by blast
    have "optimizeRoute requests = Inr route"
      using not1 False r(1) by (simp add: optimizeRoute_def)
    then show ?thesis using r(2) False by auto
  qed
qed

text \<open>
  C4 (as amended): for every non-empty list of requests \<open>optimizeRoute\<close> returns a
  route in which each member's pickup waypoint (the first pickup tagged with its id)
  comes before its dropoff waypoint; for lists of at most four requests the total
  distance of the route is at most the distance of the route that visits all pickups
  and then all dropoffs in input order.
\<close>

theorem optimizeRoute_precedence_and_bound:
  assumes "requests \<noteq> []"
  shows "\<exists>route. optimizeRoute requests = Inr route
     \<and> (\<forall>req \<in> set requests.
           0 \<le> pickupIndex (req_id req) (waypoints route)
         \<and> pickupIndex (req_id req) (waypoints route) < dropoffIndex (req_id req) (waypoints route))
     \<and> (length requests \<le> 4 \<longrightarrow>
           totalDistance route
             \<le> calculateRouteDistance (map req_pickup requests @ map req_dropoff requests))"
  using assms by (rule optimizeRoute_correct)

text \<open>The theorem at two requests that share pickup and dropoff.\<close>

theorem optimizeRoute_precedence_and_bound_witness:
  "\<exists>route. optimizeRoute [sameTrip ''a'' 1, sameTrip ''b'' 2] = Inr route
     \<and> 0 \<le> pickupIndex ''a'' (waypoints route)
     \<and> pickupIndex ''a'' (waypoints route) < dropoffIndex ''a'' (waypoints route)
     \<and> 0 \<le> pickupIndex ''b'' (waypoints route)
     \<and> pickupIndex ''b'' (waypoints route) < dropoffIndex ''b'' (waypoints route)
     \<and> totalDistance route \<le> calculateRouteDistance [terminalA, terminalA, hotelB, hotelB]"
  using optimizeRoute_precedence_and_bound [of "[sameTrip ''a'' 1, sameTrip ''b'' 2]"]
  by (simp add: sameTrip_sel)

lemma naive_five:
  "calculateRouteDistance (map req_pickup greedyFive @ map req_dropoff greedyFive) = kmPerDegree * 20.95"
  by (simp add: greedyFive_def hop_sel dist_onMeridian algebra_simps)

lemma optimizeRouteGreedy_unfold:
  "greedyLoop (q # qs) (map pickupWaypoint (q # qs)) [] (req_pickup q) [] = Inr r \<Longrightarrow>
     optimizeRouteGreedy (q # qs) =
       Inr \<lparr>waypoints = r, totalDistance = routeKm r, estimatedDuration = estimateTravelTime (routeKm r)\<rparr>"
  by (simp add: optimizeRouteGreedy_def Let_def routeKm_def wp_sel)

lemma routeKm_five: "routeKm (waypoints greedyFiveRoute) = kmPerDegree * 38.95"
  by (simp add: routeKm_def greedyFiveRoute_def wp_sel hop_sel dist_onMeridian algebra_simps)

lemma optimizeRoute_five: "optimizeRoute greedyFive = Inr greedyFiveRoute"
proof -
  have "greedyLoop greedyFive (map pickupWaypoint greedyFive) [] (req_pickup (hop ''r1'' 0 0)) []
      = Inr (waypoints greedyFiveRoute)"
    using greedyLoop_five by (simp add: hop_sel)
  then have "optimizeRouteGreedy greedyFive =
      Inr \<lparr>waypoints = waypoints greedyFiveRoute, totalDistance = routeKm (waypoints greedyFiveRoute),
           estimatedDuration = estimateTravelTime (routeKm (waypoints greedyFiveRoute))\<rparr>"
    unfolding greedyFive_def by (rule optimizeRouteGreedy_unfold)
  also have "\<dots> = Inr greedyFiveRoute"
    unfolding routeKm_five by (simp add: greedyFiveRoute_def)
  finally show ?thesis
    by (simp add: optimizeRoute_def greedyFive_def)
qed

text \<open>
  C4 as stated fails for five requests: the greedy fallback returns a route of 38.95
  degrees of latitude, the pickups-then-dropoffs route has 20.95.
\<close>

theorem greedy_route_longer_than_naive:
  "optimizeRoute greedyFive = Inr greedyFiveRoute
   \<and> calculateRouteDistance (map req_pickup greedyFive @ map req_dropoff greedyFive)
       < totalDistance greedyFiveRoute"
proof -
  have "kmPerDegree * 20.95 < kmPerDegree * 38.95"
    using kmPerDegree_pos by simp
  moreover have "totalDistance greedyFiveRoute = kmPerDegree * 38.95"
    by (simp add: greedyFiveRoute_def)
  ultimately show ?thesis
    using optimizeRoute_five naive_five by simp
qed

section \<open>Properties of the pricing engine\<close>

lemma getTimeMultiplier_pos: "0 < getTimeMultiplier h"
  by (simp add: getTimeMultiplier_def)

lemma getPoolingDiscount_le: "getPoolingDiscount n \<le> 0.4"
  by (simp add: getPoolingDiscount_def)

lemma round2_mono: "x \<le> y \<Longrightarrow> round2 x \<le> round2 y"
  by (simp add: round2_def round_mono divide_right_mono)

text \<open>
  C7: with the other inputs fixed, \<open>calculateFare\<close> does not decrease when
  \<open>actualDistance\<close> grows (surge factor non-negative) or when \<open>surgeFactor\<close> grows
  (distance non-negative), and its result is never below the minimum fare 8.0.
\<close>

theorem calculateFare_monotone_and_floor:
  "(0 \<le> surgeFactor p \<longrightarrow> d1 \<le> d2 \<longrightarrow>
      calculateFare (p\<lparr>actualDistance := d1\<rparr>) \<le> calculateFare (p\<lparr>actualDistance := d2\<rparr>))
   \<and> (0 \<le> actualDistance p \<longrightarrow> s1 \<le> s2 \<longrightarrow>
      calculateFare (p\<lparr>surgeFactor := s1\<rparr>) \<le> calculateFare (p\<lparr>surgeFactor := s2\<rparr>))
   \<and> MIN_FARE = 8 \<and> MIN_FARE \<le> calculateFare p"
proof (intro conjI impI)
  let ?n = "or_else (totalPassengersInRide p) (passengers p)"
  let ?t = "getTimeMultiplier (timeOfDay p)"
  let ?c = "1 - getPoolingDiscount ?n"
  let ?k = "real (passengers p)"
  have c: "0 \<le> ?c" using getPoolingDiscount_le [of ?n] by simp
  have t: "0 \<le> ?t" using getTimeMultiplier_pos [of "timeOfDay p"] by simp
  {
    assume s: "0 \<le> surgeFactor p" and d: "d1 \<le> d2"
    have "BASE_FARE + d1 * RATE_PER_KM \<le> BASE_FARE + d2 * RATE_PER_KM"
      using d by (simp add: RATE_PER_KM_def)
    moreover have "0 \<le> surgeFactor p * ?t * ?c * ?k"
      using s t c by simp
    ultimately have
      "(BASE_FARE + d1 * RATE_PER_KM) * (surgeFactor p * ?t * ?c * ?k)
         \<le> (BASE_FARE + d2 * RATE_PER_KM) * (surgeFactor p * ?t * ?c * ?k)"
      by (rule mult_right_mono)
    then have "(BASE_FARE + d1 * RATE_PER_KM) * surgeFactor p * ?t * ?c * ?k
         \<le> (BASE_FARE + d2 * RATE_PER_KM) * surgeFactor p * ?t * ?c * ?k"
      by (simp add: mult.assoc)
    then have "round2 ((BASE_FARE + d1 * RATE_PER_KM) * surgeFactor p * ?t * ?c * ?k)
         \<le> round2 ((BASE_FARE + d2 * RATE_PER_KM) * surgeFactor p * ?t * ?c * ?k)"
      by (rule round2_mono)
    then show "calculateFare (p\<lparr>actualDistance := d1\<rparr>) \<le> calculateFare (p\<lparr>actualDistance := d2\<rparr>)"
      by (simp add: calculateFare_def Let_def max.coboundedI2)
  }
  {
    assume a: "0 \<le> actualDistance p" and s: "s1 \<le> s2"
    have b: "0 \<le> BASE_FARE + actualDistance p * RATE_PER_KM"
      using a by (simp add: BASE_FARE_def RATE_PER_KM_def)
    have "s1 * ((BASE_FARE + actualDistance p * RATE_PER_KM) * ?t * ?c * ?k)
         \<le> s2 * ((BASE_FARE + actualDistance p * RATE_PER_KM) * ?t * ?c * ?k)"
      using s b t c by (intro mult_right_mono) simp_all
    then have "(BASE_FARE + actualDistance p * RATE_PER_KM) * s1 * ?t * ?c * ?k
         \<le> (BASE_FARE + actualDistance p * RATE_PER_KM) * s2 * ?t * ?c * ?k"
      by (simp add: mult.assoc mult.left_commute)
    then have "round2 ((BASE_FARE + actualDistance p * RATE_PER_KM) * s1 * ?t * ?c * ?k)
         \<le> round2 ((BASE_FARE + actualDistance p * RATE_PER_KM) * s2 * ?t * ?c * ?k)"
      by (rule round2_mono)
    then show "calculateFare (p\<lparr>surgeFactor := s1\<rparr>) \<le> calculateFare (p\<lparr>surgeFactor := s2\<rparr>)"
      by (simp add: calculateFare_def Let_def max.coboundedI2)
  }
  show "MIN_FARE = 8" by (simp add: MIN_FARE_def)
  show "MIN_FARE \<le> calculateFare p" by (simp add: calculateFare_def Let_def)
qed

theorem calculateFare_monotone_and_floor_witness:
  "calculateFare \<lparr>baseDistance = 10, actualDistance = 10, passengers = 1, surgeFactor = 1,
        timeOfDay = 12, totalPassengersInRide = None\<rparr>
     \<le> calculateFare \<lparr>baseDistance = 10, actualDistance = 20, passengers = 1, surgeFactor = 1,
        timeOfDay = 12, totalPassengersInRide = None\<rparr>
   \<and> calculateFare \<lparr>baseDistance = 10, actualDistance = 10, passengers = 1, surgeFactor = 1,
        timeOfDay = 12, totalPassengersInRide = None\<rparr>
     \<le> calculateFare \<lparr>baseDistance = 10, actualDistance = 10, passengers = 1, surgeFactor = 2,
        timeOfDay = 12, totalPassengersInRide = None\<rparr>
   \<and> 8 \<le> calculateFare \<lparr>baseDistance = 10, actualDistance = 10, passengers = 1, surgeFactor = 1,
        timeOfDay = 12, totalPassengersInRide = None\<rparr>"
  using calculateFare_monotone_and_floor
    [of "\<lparr>baseDistance = 10, actualDistance = 10, passengers = 1, surgeFactor = 1,
        timeOfDay = 12, totalPassengersInRide = None\<rparr>" 10 20 1 2]
  by simp

text \<open>
  C8: \<open>calculateSurgeFactor\<close> returns 3.0 when no cab is available; otherwise it
  returns \<open>1 + min(activeRequests / availableCabs, 2)\<^sup>2\<close> clamped to the interval
  from 1.0 to 3.0. For 200 active requests and 100 available cabs the result is 3.0.
\<close>

theorem calculateSurgeFactor_spec:
  "calculateSurgeFactor a 0 = 3
   \<and> (v \<noteq> 0 \<longrightarrow>
        calculateSurgeFactor a v = min 3 (max 1 (1 + (min (a / v) 2)\<^sup>2))
        \<and> 1 \<le> calculateSurgeFactor a v \<and> calculateSurgeFactor a v \<le> 3)
   \<and> calculateSurgeFactor 200 100 = 3"
  by (simp add: calculateSurgeFactor_def Let_def)

theorem calculateSurgeFactor_spec_witness:
  "(50::real) \<noteq> 0 \<and> calculateSurgeFactor 150 50 = 3 \<and> calculateSurgeFactor 25 50 = 5 / 4"
proof -
  have a: "calculateSurgeFactor 150 50 = min 3 (max 1 (1 + (min (150 / 50) 2)\<^sup>2))"
    using calculateSurgeFactor_spec [of 150 50] by simp
  have b: "calculateSurgeFactor 25 50 = min 3 (max 1 (1 + (min (25 / 50) 2)\<^sup>2))"
    using calculateSurgeFactor_spec [of 25 50] by simp
  show ?thesis
    unfolding a b by (simp add: power2_eq_square)
qed

section \<open>Properties of the matching engine\<close>

lemma foldl_add_sum_list: "foldl (\<lambda>s x. s + f x) a xs = (a::nat) + sum_list (map f xs)"
  by (induction xs arbitrary: a) simp_all

lemma totalPassengersOf_sum: "totalPassengersOf grp = sum_list (map req_passengers grp)"
  by (simp add: totalPassengersOf_def foldl_add_sum_list)

lemma totalLuggageOf_sum:
  "totalLuggageOf grp = sum_list (map (\<lambda>r. sum_list (map luggageUnits (req_luggage r))) grp)"
  by (simp add: totalLuggageOf_def foldl_add_sum_list)

text \<open>
  C1 fails on the code: for a one-passenger target and five three-passenger candidates
  on the same trip, every pooled pair scores 100, the solo option (score 50) is sorted
  to the sixth place and cut off; the five results are all two-request trips.
\<close>

theorem findMatches_solo_dropped:
  "findMatches defaultConfig soloTarget fiveCandidates = Inr pooledFive
   \<and> length pooledFive = 5
   \<and> soloMatch soloTarget \<notin> set pooledFive
   \<and> map score pooledFive = [100, 100, 100, 100, 100]
   \<and> score (soloMatch soloTarget) = 50"
proof -
  have "soloMatch soloTarget \<noteq> pooledSameTrip i n j m" for i n j m
    using score_sel(1) [of soloTarget] score_sel(2) [of i n j m] by auto
  then have "soloMatch soloTarget \<notin> set pooledFive"
    by (simp add: pooledFive_def)
  then show ?thesis
    using findMatches_five by (simp add: pooledFive_def score_sel)
qed

text \<open>
  C6: under the default configuration, every group that \<open>checkConstraints\<close> admits
  has at most 4 passengers and at most 6 luggage units in total.
\<close>

theorem checkConstraints_default_bounds:
  "checkConstraints defaultConfig grp \<Longrightarrow>
     sum_list (map req_passengers grp) \<le> 4
   \<and> sum_list (map (\<lambda>r. sum_list (map luggageUnits (req_luggage r))) grp) \<le> 6"
  by (simp add: checkConstraints_def defaultConfig_def totalPassengersOf_sum totalLuggageOf_sum)

theorem checkConstraints_default_bounds_witness:
  "checkConstraints defaultConfig twoCompatible
   \<and> sum_list (map req_passengers twoCompatible) \<le> 4
   \<and> sum_list (map (\<lambda>r. sum_list (map luggageUnits (req_luggage r))) twoCompatible) \<le> 6"
proof -
  have c: "checkConstraints defaultConfig twoCompatible"
    by (simp add: checkConstraints_def defaultConfig_def totalPassengersOf_def totalLuggageOf_def
        twoCompatible_def sameTrip_def)
  show ?thesis
    using c checkConstraints_default_bounds [OF c] by simp
qed

section \<open>Pricing of the returned matches\<close>

lemma mapResult_Inr:
  "(\<And>x. x \<in> set xs \<Longrightarrow> f x = Inr (g x)) \<Longrightarrow> mapResult f xs = Inr (map g xs)"
  by (induction xs) simp_all

lemma member_le_sum_list: "x \<in> set xs \<Longrightarrow> f x \<le> (sum_list (map f xs) :: nat)"
  by (induction xs) auto

lemma calculateFare_specFare:
  assumes "n \<le> t"
  shows "calculateFare \<lparr>baseDistance = d, actualDistance = d, passengers = n, surgeFactor = surge,
            timeOfDay = hour, totalPassengersInRide = Some t\<rparr> = specFare surge hour t d n"
proof -
  have "or_else (Some t) n = t" using assms by (simp add: or_else_def)
  then show ?thesis by (simp add: calculateFare_def specFare_def Let_def)
qed

lemma priceMatch_pricedWith:
  assumes "legsFound m"
  shows "priceMatch surge hour m = Inr (pricedWith surge hour m)"
proof -
  let ?legs = "ride_passengers (ride m)"
  let ?t = "tripPassengers m"
  have t: "foldl (\<lambda>sum p. sum + leg_passengers p) 0 ?legs = ?t"
    by (simp add: tripPassengers_def foldl_add_sum_list)
  have "priceLeg surge hour ?t (ride_route (ride m)) leg
      = Inr (leg\<lparr>leg_fare := specFare surge hour ?t (passengerKm leg (ride_route (ride m)))
                 (leg_passengers leg)\<rparr>)"
    if "leg \<in> set ?legs" for leg
  proof -
    have "0 \<le> leg_pickupOrder leg"
      using assms that by (simp add: legsFound_def list_all_iff)
    then have "calculatePassengerDistance leg (ride_route (ride m))
        = Inr (passengerKm leg (ride_route (ride m)))"
      by (simp add: calculatePassengerDistance_def Let_def)
    moreover have "leg_passengers leg \<le> ?t"
      unfolding tripPassengers_def using that by (rule member_le_sum_list)
    ultimately show ?thesis
      by (simp add: priceLeg_def calculateFare_specFare)
  qed
  then have "mapResult (priceLeg surge hour ?t (ride_route (ride m))) ?legs
      = Inr (map (\<lambda>leg. leg\<lparr>leg_fare := specFare surge hour ?t
                 (passengerKm leg (ride_route (ride m))) (leg_passengers leg)\<rparr>) ?legs)"
    by (rule mapResult_Inr)
  then show ?thesis
    by (simp add: priceMatch_def t pricedWith_def Let_def)
qed

lemma priceMatches_pricedWith:
  "list_all legsFound ms \<Longrightarrow> priceMatches surge hour ms = Inr (map (pricedWith surge hour) ms)"
  unfolding priceMatches_def
  by (rule mapResult_Inr) (simp add: list_all_iff priceMatch_pricedWith)

lemma mapResult_total:
  "(\<And>x. x \<in> set xs \<Longrightarrow> \<exists>y. f x = Inr y) \<Longrightarrow> \<exists>ys. mapResult f xs = Inr ys"
proof (induction xs)
  case Nil
  show ?case by simp
next
  case (Cons x xs)
  from Cons.prems [of x] obtain y where y: "f x = Inr y" by auto
  from Cons.IH Cons.prems obtain ys where ys: "mapResult f xs = Inr ys" by auto
  show ?case by (simp add: y ys)
qed

lemma detourOf_total:
  assumes "0 \<le> pickupIndex (req_id r) wps"
  shows "\<exists>d. detourOf wps r = Inr d"
proof -
  have "dropoffIndex (req_id r) wps < int (length wps)"
    unfolding dropoffIndex_def by (rule findIndex_less_length)
  then have "\<exists>km. legDistance wps (pickupIndex (req_id r) wps) (dropoffIndex (req_id r) wps) = Inr km"
    using assms by (simp add: legDistance_def)
  then show ?thesis
    by (auto simp: detourOf_def Let_def)
qed

lemma legsFound_createRide:
  assumes "\<forall>req \<in> set grp. 0 \<le> pickupIndex (req_id req) (waypoints route)"
  shows "list_all (\<lambda>leg. 0 \<le> leg_pickupOrder leg) (ride_passengers (createRide grp route))"
  using assms by (simp add: createRide_def createLeg_def list_all_iff)

lemma tryGroup_total:
  "tryGroup cfg request grp = Inr None
   \<or> (\<exists>m. tryGroup cfg request grp = Inr (Some m) \<and> legsFound m)"
proof (cases "canAddToGroup cfg request grp \<and> checkConstraints cfg (grp @ [request])")
  case False
  then show ?thesis by (auto simp: tryGroup_def Let_def)
next
  case True
  have "grp @ [request] \<noteq> []" by simp
  from optimizeRoute_correct [OF this] obtain route where
    r: "optimizeRoute (grp @ [request]) = Inr route"
      "\<forall>req \<in> set (grp @ [request]). 0 \<le> pickupIndex (req_id req) (waypoints route)"
    by blast
  have "\<exists>ds. mapResult (detourOf (waypoints route)) (grp @ [request]) = Inr ds"
    by (rule mapResult_total) (use r(2) in \<open>auto intro: detourOf_total\<close>)
  then obtain ds where ds: "calculateDetours (grp @ [request]) route = Inr ds"
    by (auto simp: calculateDetours_def)
  have "legsFound \<lparr>score = s, ride = createRide (grp @ [request]) route, savings = v, detourTime = t\<rparr>"
    for s v t
    unfolding legsFound_def using legsFound_createRide [OF r(2)] by simp
  then show ?thesis
    using True r(1) ds by (simp add: tryGroup_def Let_def)
qed

lemma tryGroups_total:
  "list_all legsFound matches \<Longrightarrow>
     \<exists>ms. tryGroups cfg request groups matches = Inr ms \<and> list_all legsFound ms"
proof (induction groups arbitrary: matches)
  case Nil
  then show ?case by simp
next
  case (Cons grp rest)
  from tryGroup_total [of cfg request grp] show ?case
  proof
    assume "tryGroup cfg request grp = Inr None"
    then show ?thesis using Cons.IH [OF Cons.prems] by simp
  next
    assume "\<exists>m. tryGroup cfg request grp = Inr (Some m) \<and> legsFound m"
    then obtain m where m: "tryGroup cfg request grp = Inr (Some m)" "legsFound m" by auto
    then have "list_all legsFound (matches @ [m])" using Cons.prems by simp
    from Cons.IH [OF this] show ?thesis using m(1) by simp
  qed
qed

lemma legsFound_soloMatch: "legsFound (soloMatch request)"
  by (simp add: legsFound_def soloMatch_def createRide_def createLeg_def createSimpleRoute_correct)

lemma findMatches_total:
  "\<exists>ms. findMatches cfg request activeRequests = Inr ms \<and> list_all legsFound ms"
proof -
  let ?groups = "createRequestGroups cfg (filterNearbyRequests request activeRequests)"
  have "list_all legsFound [soloMatch request]" by (simp add: legsFound_soloMatch)
  from tryGroups_total [OF this, of cfg request ?groups]
  obtain all where a: "tryGroups cfg request ?groups [soloMatch request] = Inr all"
    "list_all legsFound all" by auto
  have "set (take 5 (sort_key (\<lambda>m. - score m) all)) \<subseteq> set all"
    using set_take_subset [of 5 "sort_key (\<lambda>m. - score m) all"] by simp
  then have "list_all legsFound (take 5 (sort_key (\<lambda>m. - score m) all))"
    using a(2) by (auto simp: list_all_iff)
  then show ?thesis
    using a(1) by (simp add: findMatches_def Let_def)
qed

text \<open>
  C5: \<open>findMatches\<close> always returns, and the pricing loop gives every leg of every
  returned match the fare \<open>specFare\<close> with the discount tier of the trip's total
  passenger count (the sum over all legs of the match) and the multiplication by the
  passengers of that leg's own booking.
\<close>

theorem priced_fares_use_trip_total:
  "\<exists>ms. findMatches cfg request activeRequests = Inr ms
     \<and> priceMatches surge hour ms = Inr (map (pricedWith surge hour) ms)"
  using findMatches_total [of cfg request activeRequests]
  by (auto intro: priceMatches_pricedWith)

section \<open>The detour scenario\<close>

lemma validRoutes_pair:
  assumes "req_id a \<noteq> req_id b"
  shows "generateValidRoutes (allWaypoints [a, b]) rs =
    [[pickupWaypoint a, dropoffWaypoint a, pickupWaypoint b, dropoffWaypoint b],
     [pickupWaypoint a, pickupWaypoint b, dropoffWaypoint a, dropoffWaypoint b],
     [pickupWaypoint a, pickupWaypoint b, dropoffWaypoint b, dropoffWaypoint a],
     [pickupWaypoint b, pickupWaypoint a, dropoffWaypoint a, dropoffWaypoint b],
     [pickupWaypoint b, pickupWaypoint a, dropoffWaypoint b, dropoffWaypoint a],
     [pickupWaypoint b, dropoffWaypoint b, pickupWaypoint a, dropoffWaypoint a]]"
  using assms
  by (simp add: generateValidRoutes_def allWaypoints_def permute4 isValidRoute_def wp_sel)

lemma kmPerDegree_bounds: "70 < kmPerDegree" "kmPerDegree < 142"
  using pi_ge_two pi_less_4 by (simp_all add: kmPerDegree_def)

lemma pickBest_Cons_routeKm:
  "pickBest best (route # rest) =
     pickBest (case best of
                 None \<Rightarrow> Some (route, routeKm route)
               | Some (bestRoute, bestDistance) \<Rightarrow>
                   if routeKm route < bestDistance then Some (route, routeKm route) else best) rest"
  unfolding routeKm_def by (simp add: Let_def)

lemma routeKm4:
  "routeKm [a, b, c, d] =
     calculateDistance (wp_location a) (wp_location b)
     + (calculateDistance (wp_location b) (wp_location c)
        + calculateDistance (wp_location c) (wp_location d))"
  by (simp add: routeKm_def)

lemma detour_dists:
  "calculateDistance (req_pickup detourCandidate) (req_dropoff detourCandidate) = kmPerDegree * 0.01"
  "calculateDistance (req_dropoff detourCandidate) (req_pickup detourTarget) = kmPerDegree * 0.02"
  "calculateDistance (req_pickup detourTarget) (req_dropoff detourTarget) = kmPerDegree * 0.10"
  "calculateDistance (req_pickup detourCandidate) (req_pickup detourTarget) = kmPerDegree * 0.03"
  "calculateDistance (req_pickup detourTarget) (req_dropoff detourCandidate) = kmPerDegree * 0.02"
  "calculateDistance (req_dropoff detourCandidate) (req_dropoff detourTarget) = kmPerDegree * 0.08"
  "calculateDistance (req_dropoff detourTarget) (req_dropoff detourCandidate) = kmPerDegree * 0.08"
  "calculateDistance (req_pickup detourTarget) (req_pickup detourCandidate) = kmPerDegree * 0.03"
  "calculateDistance (req_pickup detourCandidate) (req_dropoff detourTarget) = kmPerDegree * 0.07"
  "calculateDistance (req_dropoff detourTarget) (req_pickup detourCandidate) = kmPerDegree * 0.07"
  by (simp_all add: detourCandidate_def detourTarget_def hop_sel dist_onMeridian)

lemma detour_routeKm:
  "routeKm [pickupWaypoint detourCandidate, dropoffWaypoint detourCandidate,
            pickupWaypoint detourTarget, dropoffWaypoint detourTarget] = kmPerDegree * 0.13"
  "routeKm [pickupWaypoint detourCandidate, pickupWaypoint detourTarget,
            dropoffWaypoint detourCandidate, dropoffWaypoint detourTarget] = kmPerDegree * 0.13"
  "routeKm [pickupWaypoint detourCandidate, pickupWaypoint detourTarget,
            dropoffWaypoint detourTarget, dropoffWaypoint detourCandidate] = kmPerDegree * 0.21"
  "routeKm [pickupWaypoint detourTarget, pickupWaypoint detourCandidate,
            dropoffWaypoint detourCandidate, dropoffWaypoint detourTarget] = kmPerDegree * 0.12"
  "routeKm [pickupWaypoint detourTarget, pickupWaypoint detourCandidate,
            dropoffWaypoint detourTarget, dropoffWaypoint detourCandidate] = kmPerDegree * 0.18"
  "routeKm [pickupWaypoint detourTarget, dropoffWaypoint detourTarget,
            pickupWaypoint detourCandidate, dropoffWaypoint detourCandidate] = kmPerDegree * 0.18"
  unfolding routeKm4 wp_sel detour_dists by simp_all

lemma pickBest_detour:
  "pickBest None (generateValidRoutes (allWaypoints [detourCandidate, detourTarget]) rs)
     = Some (waypoints detourRoute, kmPerDegree * 0.12)"
proof -
  have ne: "req_id detourCandidate \<noteq> req_id detourTarget"
    by (simp add: detourCandidate_def detourTarget_def hop_sel)
  show ?thesis
    unfolding validRoutes_pair [OF ne]
    using kmPerDegree_pos
    by (simp add: pickBest_Cons_routeKm detour_routeKm detourRoute_def del: pickBest.simps(2))
qed

lemma optimizeRoute_detour: "optimizeRoute [detourCandidate, detourTarget] = Inr detourRoute"
  by (simp add: optimizeRoute_def optimizeRouteDynamic_def pickBest_detour Let_def detourRoute_def)

lemma ceiling_add_ge: "1 \<le> y \<Longrightarrow> \<lceil>x\<rceil> + 1 \<le> \<lceil>x + y\<rceil>" for x y :: real
proof -
  assume "1 \<le> y"
  then have "\<lceil>x + 1\<rceil> \<le> \<lceil>x + y\<rceil>" by (intro ceiling_mono) simp
  then show ?thesis by simp
qed

lemma targetDetour_bounds: "1 \<le> targetDetour" "targetDetour \<le> 6"
proof -
  let ?x = "kmPerDegree * 0.10 / 40 * 60" and ?y = "kmPerDegree * 0.02 / 40 * 60"
  have s: "kmPerDegree * 0.12 / 40 * 60 = ?x + ?y" by simp
  have y: "1 \<le> ?y" "?y \<le> 5" using kmPerDegree_bounds by simp_all
  have d: "targetDetour = \<lceil>?x + ?y\<rceil> - \<lceil>?x\<rceil>"
    unfolding targetDetour_def estimateTravelTime_def Let_def s ..
  have "\<lceil>?x\<rceil> + 1 \<le> \<lceil>?x + ?y\<rceil>" using y(1) by (rule ceiling_add_ge)
  then show "1 \<le> targetDetour" unfolding d by simp
  have "\<lceil>?x + ?y\<rceil> \<le> \<lceil>?x + 5\<rceil>" using y(2) by (intro ceiling_mono) simp
  then have "\<lceil>?x + ?y\<rceil> \<le> \<lceil>?x\<rceil> + 5" by simp
  then show "targetDetour \<le> 6" unfolding d by simp
qed

lemma detours_detour:
  "calculateDetours [detourCandidate, detourTarget] detourRoute = Inr [0, targetDetour]"
  by (simp add: calculateDetours_def detourOf_def pickupIndex_def dropoffIndex_def legDistance_def
      detourRoute_def detourCandidate_def detourTarget_def targetDetour_def
      wp_sel hop_sel dist_onMeridian Let_def upt_rec [of _ "numeral _"] upt_rec [of _ "Suc _"]
      algebra_simps)

lemma tryGroup_detour:
  "tryGroup defaultConfig detourTarget [detourCandidate] = Inr (Some pooledDetour)"
proof -
  have v: "validateDetours defaultConfig [detourCandidate, detourTarget] [0, targetDetour]"
    using targetDetour_bounds
    by (simp add: validateDetours_def detourCandidate_def detourTarget_def hop_sel Let_def
        le_max_iff_disj)
  have m: "maxOf [0, targetDetour] = targetDetour"
    using targetDetour_bounds by (simp add: maxOf_def)
  have c: "canAddToGroup defaultConfig detourTarget [detourCandidate]"
    "checkConstraints defaultConfig [detourCandidate, detourTarget]"
    by (simp_all add: canAddToGroup_def checkConstraints_def totalPassengersOf_def
        totalLuggageOf_def defaultConfig_def detourCandidate_def detourTarget_def hop_sel)
  show ?thesis
    using c v
    by (simp add: tryGroup_def optimizeRoute_detour detours_detour m pooledDetour_def Let_def)
qed

lemma score_pooledDetour: "50 < score pooledDetour"
proof -
  have d: "foldl (\<lambda>sum r. sum + calculateDistance (req_pickup r) (req_dropoff r)) 0
      [detourCandidate, detourTarget] = kmPerDegree * 0.11"
    by (simp add: detourCandidate_def detourTarget_def hop_sel dist_onMeridian algebra_simps)
  have e: "kmPerDegree * 0.11 / (kmPerDegree * 0.12) = 11 / 12"
    using kmPerDegree_pos by simp
  have "score pooledDetour
      = min 100 (20 + 11 / 12 * 40 + max 0 (20 - real_of_int (0 + targetDetour) / 2))"
    unfolding pooledDetour_def calculateMatchScore_def Let_def d
    using kmPerDegree_pos by (simp add: detourRoute_def defaultConfig_def)
  then show ?thesis by simp
qed

lemma findMatches_detour:
  "findMatches defaultConfig detourTarget [detourCandidate] = Inr [pooledDetour, soloMatch detourTarget]"
proof -
  have n: "filterNearbyRequests detourTarget [detourCandidate] = [detourCandidate]"
    using kmPerDegree_bounds
    by (simp add: filterNearbyRequests_def detourCandidate_def detourTarget_def hop_sel
        dist_onMeridian SEARCH_RADIUS_KM_def)
  have g: "createRequestGroups defaultConfig [detourCandidate] = [[detourCandidate]]"
    by (simp add: createRequestGroups_def Let_def upt_rec [of _ "numeral _"] upt_rec [of _ "Suc _"])
  have t: "tryGroups defaultConfig detourTarget [[detourCandidate]] [soloMatch detourTarget]
      = Inr [soloMatch detourTarget, pooledDetour]"
    by (simp add: tryGroup_detour)
  show ?thesis
    unfolding findMatches_def Let_def n g t
    using score_pooledDetour by (simp add: score_sel)
qed

section \<open>Properties of the coordinator\<close>

lemma transaction_failure: "fst (transaction body db) = Inl e \<Longrightarrow> snd (transaction body db) = db"
  by (auto simp: transaction_def split: sum.splits prod.splits)

lemma transaction_success:
  "transaction body db = (Inr v, db') \<longleftrightarrow> body db = Inr (v, db')"
  by (auto simp: transaction_def split: sum.splits prod.splits)

lemma filter_updateWhere_id:
  assumes "\<And>r. key (f r) = key r"
  shows "filter (\<lambda>r. key r = k) (updateWhere cond f rows)
     = map (\<lambda>r. if cond r then f r else r) (filter (\<lambda>r. key r = k) rows)"
  using assms by (induction rows) (auto simp: updateWhere_def)

lemma rideVersions_update:
  assumes "\<And>r. rd_id (f r) = rd_id r" "\<And>r. rd_version (f r) = rd_version r + 1"
  shows "map rd_version (filter (\<lambda>r. rd_id r = rideId)
           (updateWhere (\<lambda>r. rd_id r = rideId) f rows))
         = map (\<lambda>v. v + 1) (map rd_version (filter (\<lambda>r. rd_id r = rideId) rows))"
  using assms by (induction rows) (auto simp: updateWhere_def)

lemma cancelRide_version:
  "cancelRide db rideId = (Inr u, db') \<Longrightarrow>
     rideVersions db' rideId = map (\<lambda>v. v + 1) (rideVersions db rideId)"
  unfolding cancelRide_def transaction_success
  by (auto simp: cancelRideBody_def rideVersions_def Let_def rideVersions_update
      split: list.splits if_splits)

lemma completeRide_version:
  "completeRide db rideId = (Inr u, db') \<Longrightarrow>
     rideVersions db' rideId = map (\<lambda>v. v + 1) (rideVersions db rideId)"
  unfolding completeRide_def transaction_success
  by (auto simp: completeRideBody_def rideVersions_def Let_def rideVersions_update
      split: list.splits if_splits)

lemma startRide_version:
  "startRide db rideId = (Inr u, db') \<Longrightarrow>
     rideVersions db' rideId = map (\<lambda>v. v + 1) (rideVersions db rideId)"
  unfolding startRide_def transaction_success
  by (auto simp: startRideBody_def rideVersions_def Let_def rideVersions_update
      split: list.splits if_splits)

lemma addPassenger_success:
  assumes "addPassenger rideId p db = Inr db'"
  shows "db_passengers db' = db_passengers db @ [legRow rideId p]"
    and "db_requests db' = updateWhere (\<lambda>r. req_id r = leg_requestId p) confirmRequest (db_requests db)"
    and "db_cabs db' = db_cabs db" and "db_rides db' = db_rides db"
    and "(rideId, leg_requestId p) \<notin> ridePairs db"
    and "leg_requestId p \<in> set (map req_id (db_requests db))"
proof -
  have c: "leg_requestId p \<in> set (map req_id (db_requests db))"
    "(rideId, leg_requestId p) \<notin> set (map (\<lambda>p. (rp_rideId p, rp_requestId p)) (db_passengers db))"
    using assms by (auto simp: addPassenger_def split: if_splits)
  then have eq: "db' = db\<lparr>db_passengers := db_passengers db @ [legRow rideId p],
      db_requests := updateWhere (\<lambda>r. req_id r = leg_requestId p) confirmRequest (db_requests db)\<rparr>"
    using assms
    by (simp add: addPassenger_def Let_def legRow_def confirmRequest_def [abs_def])
  show "db_passengers db' = db_passengers db @ [legRow rideId p]"
    "db_requests db' = updateWhere (\<lambda>r. req_id r = leg_requestId p) confirmRequest (db_requests db)"
    "db_cabs db' = db_cabs db" "db_rides db' = db_rides db"
    by (simp_all add: eq)
  show "(rideId, leg_requestId p) \<notin> ridePairs db" using c(2) by (simp add: ridePairs_def)
  show "leg_requestId p \<in> set (map req_id (db_requests db))" by (rule c(1))
qed

lemma addPassengers_success:
  "addPassengers rideId legs db = Inr db' \<Longrightarrow>
     db_passengers db' = db_passengers db @ map (legRow rideId) legs
   \<and> db_requests db' =
       updateWhere (\<lambda>r. req_id r \<in> leg_requestId ` set legs) confirmRequest (db_requests db)
   \<and> db_cabs db' = db_cabs db \<and> db_rides db' = db_rides db
   \<and> distinct (map leg_requestId legs)
   \<and> (\<forall>p \<in> set legs. (rideId, leg_requestId p) \<notin> ridePairs db)"
proof (induction legs arbitrary: db)
  case Nil
  then show ?case by (simp add: updateWhere_def)
next
  case (Cons p rest)
  from Cons.prems obtain db1 where p: "addPassenger rideId p db = Inr db1"
    and rest: "addPassengers rideId rest db1 = Inr db'"
    by (auto split: sum.splits)
  note s = addPassenger_success [OF p]
  note ih = Cons.IH [OF rest]
  have pairs: "ridePairs db1 = insert (rideId, leg_requestId p) (ridePairs db)"
    by (simp add: ridePairs_def s(1) legRow_def)
  have notin: "leg_requestId p \<notin> leg_requestId ` set rest"
    using ih pairs by auto
  have req: "db_requests db' =
      updateWhere (\<lambda>r. req_id r \<in> leg_requestId ` set (p # rest)) confirmRequest (db_requests db)"
  proof -
    have "db_requests db' = updateWhere (\<lambda>r. req_id r \<in> leg_requestId ` set rest) confirmRequest
        (updateWhere (\<lambda>r. req_id r = leg_requestId p) confirmRequest (db_requests db))"
      using ih s(2) by simp
    also have "\<dots> = updateWhere (\<lambda>r. req_id r \<in> leg_requestId ` set (p # rest)) confirmRequest (db_requests db)"
      using notin by (induction "db_requests db") (auto simp: updateWhere_def confirmRequest_def)
    finally show ?thesis .
  qed
  show ?case
    using ih s pairs notin req by auto
qed

lemma confirmBookingBody_success:
  assumes "confirmBookingBody requestId rideData rideId db = Inr (x, db')"
  shows "db_requests db' =
       updateWhere (\<lambda>r. req_id r \<in> leg_requestId ` set (ride_passengers rideData)) confirmRequest
         (db_requests db)"
    and "db_passengers db' = db_passengers db @ map (legRow rideId) (ride_passengers rideData)"
proof -
  from assms obtain db2 where a: "addPassengers rideId (ride_passengers rideData) db2 = Inr db'"
    and r: "db_requests db2 = db_requests db" "db_passengers db2 = db_passengers db"
    by (auto simp: confirmBookingBody_def Let_def split: list.splits if_splits option.splits sum.splits)
  from addPassengers_success [OF a] r
  show "db_requests db' =
       updateWhere (\<lambda>r. req_id r \<in> leg_requestId ` set (ride_passengers rideData)) confirmRequest
         (db_requests db)"
    and "db_passengers db' = db_passengers db @ map (legRow rideId) (ride_passengers rideData)"
    by simp_all
qed




lemma confirmBooking_committed:
  "confirmBookingBody requestId rideData rideId db = Inr (x, db') \<Longrightarrow>
     confirmBooking db cache requestId rideData rideId =
       (if cache_connected cache
        then (Inr x, db', cache\<lparr>cache_keys := removeAll (requestKey requestId) (cache_keys cache)\<rparr>)
        else (Inl CacheUnavailable, db', cache))"
  by (simp add: confirmBooking_def cacheDel_def)






lemma filter_updateWhere_same:
  "filter cond (updateWhere cond f rows) = map f (filter cond rows)"
  if "\<And>r. cond (f r) = cond r"
  using that by (induction rows) (auto simp: updateWhere_def)

text \<open>
  C9: after a successful \<open>completeRide\<close>, a second call for the same ride id
  fails with \<open>RideAlreadyCompleted\<close> and leaves the whole store (cab availability
  and location, request statuses) as the first call left it.
\<close>

theorem completeRide_twice:
  "fst (completeRide db rideId) = Inr u \<Longrightarrow>
     completeRide (snd (completeRide db rideId)) rideId
       = (Inl RideAlreadyCompleted, snd (completeRide db rideId))"
proof -
  assume "fst (completeRide db rideId) = Inr u"
  then obtain db' where b: "completeRideBody rideId db = Inr (u, db')"
    and s: "snd (completeRide db rideId) = db'"
    by (auto simp: completeRide_def transaction_def split: sum.splits prod.splits)
  from b obtain row rows where rows: "filter (\<lambda>r. rd_id r = rideId) (db_rides db) = row # rows"
    by (auto simp: completeRideBody_def split: list.splits)
  from b rows have "db_rides db' = updateWhere (\<lambda>r. rd_id r = rideId)
      (\<lambda>r. r\<lparr>rd_status := COMPLETED, rd_version := rd_version r + 1\<rparr>) (db_rides db)"
    by (auto simp: completeRideBody_def Let_def split: if_splits)
  then have "filter (\<lambda>r. rd_id r = rideId) (db_rides db')
      = map (\<lambda>r. r\<lparr>rd_status := COMPLETED, rd_version := rd_version r + 1\<rparr>) (row # rows)"
    using rows by (simp add: filter_updateWhere_same)
  then have "completeRideBody rideId db' = Inl RideAlreadyCompleted"
    by (simp add: completeRideBody_def)
  then have "completeRide db' rideId = (Inl RideAlreadyCompleted, db')"
    by (simp add: completeRide_def transaction_def)
  then show ?thesis
    unfolding s .
qed

lemma completeRide_tripDb: "fst (completeRide tripDb ''ride-1'') = Inr ()"
  by (simp add: completeRide_def transaction_def completeRideBody_def tripDb_def Let_def)

text \<open>
  The theorem for a store with one confirmed ride.
\<close>

theorem completeRide_twice_witness:
  "fst (completeRide tripDb ''ride-1'') = Inr ()
   \<and> completeRide (snd (completeRide tripDb ''ride-1'')) ''ride-1''
       = (Inl RideAlreadyCompleted, snd (completeRide tripDb ''ride-1''))"
  using completeRide_tripDb completeRide_twice [of tripDb "''ride-1''" "()"]
  by simp

lemma stalePooledRide_legs: "map leg_requestId (ride_passengers stalePooledRide) = [''c'', ''t'']"
  by (simp add: stalePooledRide_def pricedWith_def pooledSameTrip_def createRide_def createLeg_def
      sameTrip_sel)

lemma confirmBooking_doubleDb:
  "\<exists>db'. confirmBooking doubleDb liveCache ''t'' stalePooledRide ''ride-1''
       = (Inr ''ride-1'', db', liveCache\<lparr>cache_keys := []\<rparr>)
     \<and> requestStatuses db' ''c'' = [CONFIRMED]
     \<and> requestVersions db' ''c'' = [3]
     \<and> ridesOfRequest db' ''c'' = [''ride-0'', ''ride-1'']"
proof -
  obtain l1 l2 where legs: "ride_passengers stalePooledRide = [l1, l2]"
    "leg_requestId l1 = ''c''" "leg_requestId l2 = ''t''"
    using stalePooledRide_legs by (auto simp: map_eq_Cons_conv)
  show ?thesis
    by (simp add: confirmBooking_def cacheDel_def requestKey_def liveCache_def
        confirmBookingBody_def doubleDb_def soloTarget_def sameTrip_def cabOne_def
        updateWhere_def Let_def legs addPassenger_def requestStatuses_def requestVersions_def
        ridesOfRequest_def)
qed

text \<open>
  C2 fails on the code. No statement compares a version: the target is pending, the
  ride offered to it also carries the request \<open>c\<close>, which has meanwhile been confirmed
  in \<open>ride-0\<close> (version 2); \<open>confirmBooking\<close> succeeds, books \<open>c\<close> into \<open>ride-1\<close> as
  well and raises its version to 3. Nor does every update increment the version:
  \<open>markNoDriverAvailable\<close> cancels the pending target and \<open>cancelRide\<close> resets the
  booked target to PENDING, both with the version left as it was.
\<close>

theorem version_contract_not_enforced:
  "requestStatuses doubleDb ''c'' = [CONFIRMED]
   \<and> requestVersions doubleDb ''c'' = [2]
   \<and> ridesOfRequest doubleDb ''c'' = [''ride-0'']
   \<and> fst (confirmBooking doubleDb liveCache ''t'' stalePooledRide ''ride-1'') = Inr ''ride-1''
   \<and> requestStatuses (fst (snd (confirmBooking doubleDb liveCache ''t'' stalePooledRide ''ride-1'')))
        ''c'' = [CONFIRMED]
   \<and> requestVersions (fst (snd (confirmBooking doubleDb liveCache ''t'' stalePooledRide ''ride-1'')))
        ''c'' = [3]
   \<and> ridesOfRequest (fst (snd (confirmBooking doubleDb liveCache ''t'' stalePooledRide ''ride-1'')))
        ''c'' = [''ride-0'', ''ride-1'']
   \<and> requestStatuses bookingDb ''t'' = [PENDING]
   \<and> requestVersions bookingDb ''t'' = [1]
   \<and> fst (markNoDriverAvailable bookingDb liveCache ''t'') = Inr ()
   \<and> requestStatuses (fst (snd (markNoDriverAvailable bookingDb liveCache ''t''))) ''t'' = [CANCELLED]
   \<and> requestVersions (fst (snd (markNoDriverAvailable bookingDb liveCache ''t''))) ''t'' = [1]
   \<and> requestStatuses tripDb ''t'' = [CONFIRMED]
   \<and> requestVersions tripDb ''t'' = [2]
   \<and> fst (cancelRide tripDb ''ride-1'') = Inr ()
   \<and> requestStatuses (snd (cancelRide tripDb ''ride-1'')) ''t'' = [PENDING]
   \<and> requestVersions (snd (cancelRide tripDb ''ride-1'')) ''t'' = [2]"
proof -
  from confirmBooking_doubleDb obtain db' where
    c: "confirmBooking doubleDb liveCache ''t'' stalePooledRide ''ride-1''
       = (Inr ''ride-1'', db', liveCache\<lparr>cache_keys := []\<rparr>)"
    and r: "requestStatuses db' ''c'' = [CONFIRMED]" "requestVersions db' ''c'' = [3]"
      "ridesOfRequest db' ''c'' = [''ride-0'', ''ride-1'']"
    by blast
  have d: "requestStatuses doubleDb ''c'' = [CONFIRMED]" "requestVersions doubleDb ''c'' = [2]"
    "ridesOfRequest doubleDb ''c'' = [''ride-0'']"
    by (simp_all add: requestStatuses_def requestVersions_def ridesOfRequest_def doubleDb_def
        soloTarget_def sameTrip_def)
  have m: "requestStatuses bookingDb ''t'' = [PENDING]" "requestVersions bookingDb ''t'' = [1]"
    "fst (markNoDriverAvailable bookingDb liveCache ''t'') = Inr ()"
    "requestStatuses (fst (snd (markNoDriverAvailable bookingDb liveCache ''t''))) ''t'' = [CANCELLED]"
    "requestVersions (fst (snd (markNoDriverAvailable bookingDb liveCache ''t''))) ''t'' = [1]"
    by (simp_all add: markNoDriverAvailable_def cacheDel_def liveCache_def updateWhere_def Let_def
        requestStatuses_def requestVersions_def bookingDb_def soloTarget_def sameTrip_def)
  have t: "requestStatuses tripDb ''t'' = [CONFIRMED]" "requestVersions tripDb ''t'' = [2]"
    "fst (cancelRide tripDb ''ride-1'') = Inr ()"
    "requestStatuses (snd (cancelRide tripDb ''ride-1'')) ''t'' = [PENDING]"
    "requestVersions (snd (cancelRide tripDb ''ride-1'')) ''t'' = [2]"
    by (auto simp: cancelRide_def transaction_def cancelRideBody_def requestIdsOfRide_def
        updateWhere_def Let_def requestStatuses_def requestVersions_def tripDb_def
        soloTarget_def sameTrip_def cabOne_def image_iff)
  show ?thesis
    unfolding c using r d m t by simp
qed

section \<open>Matching, pricing and booking together\<close>

lemma pricedDetour_legs:
  "map leg_requestId (ride_passengers (ride (pricedWith surge hour pooledDetour))) = [''c'', ''t'']"
  "map leg_detourMinutes (ride_passengers (ride (pricedWith surge hour pooledDetour))) = [0, 0]"
  by (simp_all add: pricedWith_def pooledDetour_def createRide_def createLeg_def
      detourCandidate_def detourTarget_def hop_sel)

lemma priceMatches_detour:
  "priceMatches 1 12 [pooledDetour, soloMatch detourTarget]
     = Inr [pricedWith 1 12 pooledDetour, pricedWith 1 12 (soloMatch detourTarget)]"
proof -
  from findMatches_total [of defaultConfig detourTarget "[detourCandidate]"]
  have "list_all legsFound [pooledDetour, soloMatch detourTarget]"
    by (simp add: findMatches_detour)
  from priceMatches_pricedWith [OF this, of 1 12] show ?thesis by simp
qed

lemma confirmBookingBody_detour:
  "\<exists>db'. confirmBookingBody ''t'' (ride (pricedWith 1 12 pooledDetour)) ''ride-1'' detourDb
     = Inr (''ride-1'', db')"
proof -
  obtain l1 l2 where legs: "ride_passengers (ride (pricedWith 1 12 pooledDetour)) = [l1, l2]"
    "leg_requestId l1 = ''c''" "leg_requestId l2 = ''t''"
    using pricedDetour_legs(1) [of 1 12] by (auto simp: map_eq_Cons_conv)
  show ?thesis
    by (simp add: confirmBookingBody_def detourDb_def
        detourTarget_def detourCandidate_def hop_def cabOne_def updateWhere_def Let_def legs
        addPassenger_def)
qed

text \<open>
  C10 fails on the code: in the detour scenario the target's detour is at least one
  minute, but \<open>createRide\<close> writes \<open>detourMinutes = 0\<close> into every leg, pricing leaves
  it, and \<open>confirmBooking\<close> stores 0 in \<^verbatim>\<open>detour_minutes\<close> for both legs.
\<close>

theorem detour_not_recorded:
  "findMatches defaultConfig detourTarget [detourCandidate]
     = Inr [pooledDetour, soloMatch detourTarget]
   \<and> calculateDetours [detourCandidate, detourTarget] detourRoute = Inr [0, targetDetour]
   \<and> 1 \<le> targetDetour
   \<and> priceMatches 1 12 [pooledDetour, soloMatch detourTarget]
       = Inr [pricedWith 1 12 pooledDetour, pricedWith 1 12 (soloMatch detourTarget)]
   \<and> map leg_requestId (ride_passengers (ride (pricedWith 1 12 pooledDetour))) = [''c'', ''t'']
   \<and> map leg_detourMinutes (ride_passengers (ride (pricedWith 1 12 pooledDetour))) = [0, 0]
   \<and> fst (confirmBooking detourDb liveCache ''t'' (ride (pricedWith 1 12 pooledDetour)) ''ride-1'')
       = Inr ''ride-1''
   \<and> map rp_detourMinutes
         (db_passengers (fst (snd (confirmBooking detourDb liveCache ''t''
            (ride (pricedWith 1 12 pooledDetour)) ''ride-1'')))) = [0, 0]"
proof -
  let ?c = "confirmBooking detourDb liveCache ''t'' (ride (pricedWith 1 12 pooledDetour)) ''ride-1''"
  from confirmBookingBody_detour obtain db' where
    b: "confirmBookingBody ''t'' (ride (pricedWith 1 12 pooledDetour)) ''ride-1'' detourDb
     = Inr (''ride-1'', db')"
    by blast
  have c: "fst ?c = Inr ''ride-1''" "fst (snd ?c) = db'"
    using confirmBooking_committed [OF b, of liveCache] by (simp_all add: liveCache_def)
  from confirmBookingBody_success(2) [OF b]
  have "map rp_detourMinutes (db_passengers db')
      = map leg_detourMinutes (ride_passengers (ride (pricedWith 1 12 pooledDetour)))"
    by (simp add: detourDb_def legRow_def comp_def)
  then show ?thesis
    using findMatches_detour detours_detour targetDetour_bounds(1) priceMatches_detour
      pricedDetour_legs [of 1 12] c
    by simp
qed

lemma stepKm_AB: "stepKm terminalA hotelB = 11.1" "stepKm terminalA terminalA = 0"
  "stepKm hotelB hotelB = 0"
proof -
  have "sqrt ((1 / 10) * (1 / 10)) = (1 / 10 :: real)"
    by (simp only: real_sqrt_abs2)
  then have "sqrt (1 / 100) = (1 / 10 :: real)" by simp
  then show "stepKm terminalA hotelB = 11.1"
    by (simp add: stepKm_def terminalA_def hotelB_def Let_def)
  show "stepKm terminalA terminalA = 0" "stepKm hotelB hotelB = 0"
    by (simp_all add: stepKm_def)
qed

lemma pooledSameTrip_fares:
  "map leg_fare (ride_passengers (ride (pricedWith 1 12 (pooledSameTrip ''c1'' 3 ''t'' 1))))
     = [58.95, 19.65]"
proof -
  have r: "round (5895 :: real) = 5895" "round (1965 :: real) = 1965"
    by (simp_all add: round_def)
  show ?thesis
    by (simp add: pricedWith_def pooledSameTrip_def createRide_def createLeg_def tripPassengers_def
      pickupIndex_def dropoffIndex_def wp_sel sameTrip_sel passengerKm_def stepKm_AB
      specFare_def BASE_FARE_def RATE_PER_KM_def MIN_FARE_def getTimeMultiplier_def
      getPoolingDiscount_def round2_def Let_def upt_rec [of _ "numeral _"] upt_rec [of _ "Suc _"] r)
qed

text \<open>
  The pricing theorem at five pooled pairs: a three-passenger and a one-passenger
  booking in a four-passenger trip both get the 40 percent tier; the fares are
  3 * 19.65 and 19.65.
\<close>

theorem priced_fares_use_trip_total_witness:
  "priceMatches 1 12 pooledFive = Inr (map (pricedWith 1 12) pooledFive)
   \<and> map leg_passengers (ride_passengers (ride (pooledSameTrip ''c1'' 3 ''t'' 1))) = [3, 1]
   \<and> map leg_fare (ride_passengers (ride (pricedWith 1 12 (pooledSameTrip ''c1'' 3 ''t'' 1))))
       = [58.95, 19.65]"
proof -
  have "map leg_passengers (ride_passengers (ride (pooledSameTrip ''c1'' 3 ''t'' 1))) = [3, 1]"
    by (simp add: pooledSameTrip_def createRide_def createLeg_def sameTrip_sel)
  then show ?thesis
    using priced_fares_use_trip_total [of defaultConfig soloTarget fiveCandidates 1 12]
      pooledSameTrip_fares
    by (simp add: findMatches_five)
qed

end
